theory Spec2Isabelle
  imports Complex_Main "HOL-Library.Word" "HOL-Library.Log_Nat"
begin

section \<open>Data model (rtapi.go, lines 28-60)\<close>

text \<open>
  \<^verbatim>\<open>http.Header\<close> is a \<^verbatim>\<open>map[string][]string\<close>; it is only stored and passed on, so
  an association list stands for it (the nil map is the empty list).
  Go's \<^verbatim>\<open>uint64\<close> is a 64-bit word; Go's \<^verbatim>\<open>int\<close> fields are only stored, never
  computed with, and are kept as integers.
  \<^verbatim>\<open>vegeta.Metrics\<close> belongs to the load-generation library: it is the type
  parameter \<open>'m\<close>, and its Go zero value is passed where the code builds one.
\<close>

type_synonym Header = "(string \<times> string list) list"

record endpointTarget =
  Method :: string
  URL :: string
  Body :: string
  Header :: Header

record endpointQuery =
  Threads :: "64 word"
  MaxThreads :: "64 word"
  Connections :: int
  Duration :: string
  RequestRate :: int

record 'm endpointDetails =
  Target :: endpointTarget
  Query :: endpointQuery
  Metrics :: 'm

record splunkSettings =
  Url :: string
  Authkey :: string
  Source :: string

record 'm splunkEvent =
  Time :: int
  Host :: string
  Source :: string
  Event :: "'m endpointDetails"

section \<open>Configuration resolver (UnmarshalJSON, UnmarshalYAML, lines 265-303)\<close>

text \<open>
  One endpoint record of the input, as the decoder of either encoding sees it: every
  key of the record is absent (\<open>None\<close>) or present with a value of the Go field's type
  (\<open>Some v\<close>). A record that cannot be decoded into the struct at all (wrong value type,
  number out of range) is \<open>Undecodable\<close>. A key written with the value \<^verbatim>\<open>null\<close> carries
  no value of the field's type and is not a present field in this sense.
\<close>

record targetInput =
  in_method :: "string option"
  in_url :: "string option"
  in_body :: "string option"
  in_header :: "Header option"

record queryInput =
  in_threads :: "64 word option"
  in_max_threads :: "64 word option"
  in_connections :: "int option"
  in_duration :: "string option"
  in_request_rate :: "int option"

record 'm recordInput =
  in_target :: "targetInput option"
  in_query_parameters :: "queryInput option"
  in_metrics :: "'m option"

datatype 'm element = Undecodable | Object "'m recordInput"

datatype error =
    DecodeError          \<comment> \<open>error returned by \<^verbatim>\<open>json.Unmarshal\<close> / \<^verbatim>\<open>node.Decode\<close>\<close>
  | LogFatal             \<comment> \<open>\<^verbatim>\<open>log.Fatal\<close>: message printed, exit status 1\<close>
  | Panic                \<comment> \<open>\<^verbatim>\<open>panic(err)\<close> or a run-time panic\<close>

text \<open>
  \<^verbatim>\<open>json.Unmarshal(b, temp)\<close> and \<^verbatim>\<open>node.Decode(temp)\<close> decode into the struct that
  \<open>temp\<close> points to: a key of the input overwrites the field it names, a field whose
  key does not occur keeps the value it had before the call. \<open>set_field\<close> is that rule
  for one field, \<open>decode_target\<close> and \<open>decode_query\<close> for the nested structs.
\<close>

definition set_field :: "'a option \<Rightarrow> 'a \<Rightarrow> 'a" where
  "set_field inp old = (case inp of None \<Rightarrow> old | Some v \<Rightarrow> v)"

definition decode_target :: "targetInput option \<Rightarrow> endpointTarget \<Rightarrow> endpointTarget" where
  "decode_target inp old =
     (case inp of
        None \<Rightarrow> old
      | Some t \<Rightarrow>
          \<lparr>Method = set_field (in_method t) (Method old),
           URL = set_field (in_url t) (URL old),
           Body = set_field (in_body t) (Body old),
           Header = set_field (in_header t) (Header old)\<rparr>)"

definition decode_query :: "queryInput option \<Rightarrow> endpointQuery \<Rightarrow> endpointQuery" where
  "decode_query inp old =
     (case inp of
        None \<Rightarrow> old
      | Some q \<Rightarrow>
          \<lparr>Threads = set_field (in_threads q) (Threads old),
           MaxThreads = set_field (in_max_threads q) (MaxThreads old),
           Connections = set_field (in_connections q) (Connections old),
           Duration = set_field (in_duration q) (Duration old),
           RequestRate = set_field (in_request_rate q) (RequestRate old)\<rparr>)"

definition decode_into :: "'m element \<Rightarrow> 'm endpointDetails \<Rightarrow> error + 'm endpointDetails" where
  "decode_into el temp =
     (case el of
        Undecodable \<Rightarrow> Inl DecodeError
      | Object r \<Rightarrow>
          Inr \<lparr>Target = decode_target (in_target r) (Target temp),
               Query = decode_query (in_query_parameters r) (Query temp),
               Metrics = set_field (in_metrics r) (Metrics temp)\<rparr>)"

text \<open>The Go zero value of \<^verbatim>\<open>endpointTarget\<close>.\<close>

definition zero_target :: endpointTarget where
  "zero_target = \<lparr>Method = [], URL = [], Body = [], Header = []\<rparr>"

text \<open>The struct literal both unmarshalers start from (lines 269-277 and 289-297).\<close>

definition default_query :: endpointQuery where
  "default_query =
     \<lparr>Threads = 2, MaxThreads = 2, Connections = 10, Duration = ''10s'', RequestRate = 500\<rparr>"

definition UnmarshalJSON :: "'m \<Rightarrow> 'm element \<Rightarrow> error + 'm endpointDetails" where
  "UnmarshalJSON zero_metrics b =
     (let temp = \<lparr>Target = zero_target, Query = default_query, Metrics = zero_metrics\<rparr>
      in case decode_into b temp of
           Inl err \<Rightarrow> Inl err
         | Inr temp' \<Rightarrow> Inr temp')"

definition UnmarshalYAML :: "'m \<Rightarrow> 'm element \<Rightarrow> error + 'm endpointDetails" where
  "UnmarshalYAML zero_metrics node =
     (let temp = \<lparr>Target = zero_target, Query = default_query, Metrics = zero_metrics\<rparr>
      in case decode_into node temp of
           Inl err \<Rightarrow> Inl err
         | Inr temp' \<Rightarrow> Inr temp')"

text \<open>An input record for examples: threads set to 5, connections set to an explicit
  zero, every other query field omitted.\<close>

definition example_query :: queryInput where
  "example_query =
     \<lparr>in_threads = Some 5, in_max_threads = None, in_connections = Some 0,
      in_duration = None, in_request_rate = None\<rparr>"

definition example_record :: "unit recordInput" where
  "example_record =
     \<lparr>in_target = None, in_query_parameters = Some example_query, in_metrics = None\<rparr>"

text \<open>The same record after resolution.\<close>

definition example_resolved :: "unit endpointDetails" where
  "example_resolved =
     \<lparr>Target = zero_target,
      Query = \<lparr>Threads = 5, MaxThreads = 2, Connections = 0, Duration = ''10s'',
               RequestRate = 500\<rparr>,
      Metrics = ()\<rparr>"

text \<open>A record that sets only threads, to 1.\<close>

definition example_record_low :: "unit recordInput" where
  "example_record_low =
     \<lparr>in_target = None,
      in_query_parameters =
        Some \<lparr>in_threads = Some 1, in_max_threads = None, in_connections = None,
              in_duration = None, in_request_rate = None\<rparr>,
      in_metrics = None\<rparr>"

text \<open>The invariant that section 3 of the specification states for an EndpointSpec.\<close>

definition threads_invariant :: "endpointQuery \<Rightarrow> bool" where
  "threads_invariant q \<longleftrightarrow> Threads q \<le> MaxThreads q"

section \<open>Y-axis tick generator (customYTicks.Ticks, lines 739-760)\<close>

text \<open>
  \<^verbatim>\<open>plot.Tick\<close>, with the two fields the generator sets. A finite \<^verbatim>\<open>float64\<close> is read
  as the real number it denotes; NaN and the infinities are not values of the model.
\<close>

record Tick =
  Value :: real
  Label :: string

text \<open>\<^verbatim>\<open>strconv.Itoa\<close>: the decimal digits of a Go \<^verbatim>\<open>int\<close>, with a minus sign when negative.\<close>

definition digit :: "nat \<Rightarrow> char" where
  "digit d = ''0123456789'' ! d"

fun digits :: "nat \<Rightarrow> string" where
  "digits n = (if n < 10 then [digit n] else digits (n div 10) @ [digit (n mod 10)])"

declare digits.simps [simp del]

definition Itoa :: "int \<Rightarrow> string" where
  "Itoa i = (if i < 0 then CHR ''-'' # digits (nat (- i)) else digits (nat i))"

text \<open>
  The conversion \<^verbatim>\<open>float64(i)\<close> of a 64-bit \<^verbatim>\<open>int\<close>: exact up to magnitude \<open>2 ^ 53\<close>,
  above that rounded to 53 significant bits, ties to even. (The magnitude of an
  \<^verbatim>\<open>int64\<close> is at most \<open>2 ^ 63\<close>, so the result is always finite.)
\<close>

definition round_to_53_bits :: "int \<Rightarrow> int" where
  "round_to_53_bits a =
     (let e = nat (bitlen a - 53);
          q = a div 2 ^ e;
          r = a mod 2 ^ e
      in (if 2 ^ e < 2 * r \<or> (2 * r = 2 ^ e \<and> odd q) then q + 1 else q) * 2 ^ e)"

definition float64_of_int :: "int \<Rightarrow> real" where
  "float64_of_int i =
     (if \<bar>i\<bar> \<le> 2 ^ 53 then real_of_int i
      else real_of_int (sgn i * round_to_53_bits \<bar>i\<bar>))"

text \<open>
  The loop \<^verbatim>\<open>for i := 0; float64(i) <= max; i += 50\<close>. The counter is a Go \<^verbatim>\<open>int\<close>: a
  64-bit word read as signed, so \<^verbatim>\<open>i += 50\<close> wraps around. The loop need not end, hence
  the option monad: \<open>None\<close> is a run that never returns.
\<close>

partial_function (option) Ticks_loop :: "64 word \<Rightarrow> real \<Rightarrow> Tick list \<Rightarrow> Tick list option" where
  "Ticks_loop i ymax ticks =
     (if float64_of_int (sint i) \<le> ymax
      then Ticks_loop (i + 50) ymax
             (ticks @ [\<lparr>Value = float64_of_int (sint i), Label = Itoa (sint i) @ ''ms''\<rparr>])
      else Some ticks)"

declare Ticks_loop.simps [code]

definition Ticks :: "real \<Rightarrow> real \<Rightarrow> Tick list option" where
  "Ticks ymin ymax =
     (case Ticks_loop 0 ymax [] of
        None \<Rightarrow> None
      | Some ticks \<Rightarrow>
          Some (ticks @ [\<lparr>Value = float64_of_int 30,
                          Label = ''Real-Time -- '' @ Itoa 30 @ ''ms''\<rparr>]))"

text \<open>The tick the loop appends in round \<open>k\<close> as long as the counter has not wrapped.\<close>

definition tick_at :: "nat \<Rightarrow> Tick" where
  "tick_at k = \<lparr>Value = 50 * real k, Label = Itoa (50 * int k) @ ''ms''\<rparr>"

section \<open>Percentile graph transform: the rows of createGraph (lines 540-566)\<close>

text \<open>
  \<^verbatim>\<open>plotter.XY\<close>; \<^verbatim>\<open>make(plotter.XYs, n)\<close> fills a slice with the zero point. The
  coordinates come out of \<^verbatim>\<open>strconv.ParseFloat\<close>, which the model takes as a parameter
  (\<open>None\<close> is its error), and are only stored.
\<close>

record XY =
  X :: real
  Y :: real

definition newline :: char where
  "newline = CHR 0x0A"

text \<open>\<^verbatim>\<open>strings.Split(s, sep)\<close> for a one-byte separator: always at least one piece.\<close>

fun Split :: "string \<Rightarrow> char \<Rightarrow> string list" where
  "Split [] sep = [[]]"
| "Split (c # cs) sep =
     (if c = sep then [] # Split cs sep
      else (c # hd (Split cs sep)) # tl (Split cs sep))"

text \<open>
  \<^verbatim>\<open>strings.Fields\<close> splits a string around the runs of white space, where white space
  is what \<^verbatim>\<open>unicode.IsSpace\<close> says of the runes the string decodes to as UTF-8. (For a
  string of ASCII bytes alone the library takes a shorter way to the same result.)

  \<^verbatim>\<open>utf8.DecodeRuneInString\<close> gives the rune at the head of a byte string and its width
  in bytes; a byte that starts no well-formed encoding is the rune \<open>RuneError\<close> of width 1.
  The lead byte fixes the size and the range of the second byte; the other bytes are
  continuation bytes, \<open>0x80\<close> to \<open>0xBF\<close>.
\<close>

definition RuneError :: nat where
  "RuneError = 0xFFFD"

definition DecodeRuneInString :: "string \<Rightarrow> nat \<times> nat" where
  "DecodeRuneInString s =
     (case map of_char (take 4 s) of
        [] \<Rightarrow> (RuneError, 0)
      | s0 # t \<Rightarrow>
          if s0 < 0x80 then (s0, 1)
          else if s0 < 0xC2 \<or> 0xF4 < s0 then (RuneError, 1)
          else
            (let sz = (if s0 < 0xE0 then 2 else if s0 < 0xF0 then 3 else 4);
                 lo = (if s0 = 0xE0 then 0xA0 else if s0 = 0xF0 then 0x90 else 0x80);
                 hi = (if s0 = 0xED then 0x9F else if s0 = 0xF4 then 0x8F else 0xBF)
             in if Suc (length t) < sz then (RuneError, 1)
                else if t ! 0 < lo \<or> hi < t ! 0 then (RuneError, 1)
                else if sz = 2 then (s0 mod 32 * 64 + t ! 0 mod 64, 2)
                else if t ! 1 < 0x80 \<or> 0xBF < t ! 1 then (RuneError, 1)
                else if sz = 3
                then (s0 mod 16 * 4096 + t ! 0 mod 64 * 64 + t ! 1 mod 64, 3)
                else if t ! 2 < 0x80 \<or> 0xBF < t ! 2 then (RuneError, 1)
                else (s0 mod 8 * 262144 + t ! 0 mod 64 * 4096 + t ! 1 mod 64 * 64
                        + t ! 2 mod 64, 4)))"

text \<open>\<^verbatim>\<open>unicode.IsSpace\<close>: eight runes of Latin-1, and the other runes of the Unicode
  property White_Space.\<close>

definition IsSpace :: "nat \<Rightarrow> bool" where
  "IsSpace r \<longleftrightarrow>
     (if r \<le> 0xFF then r \<in> set [0x09, 0x0A, 0x0B, 0x0C, 0x0D, 0x20, 0x85, 0xA0]
      else r = 0x1680 \<or> (0x2000 \<le> r \<and> r \<le> 0x200A) \<or> r = 0x2028 \<or> r = 0x2029
           \<or> r = 0x202F \<or> r = 0x205F \<or> r = 0x3000)"

text \<open>
  \<^verbatim>\<open>strings.FieldsFunc\<close>: the runes are visited in order; \<open>field\<close> holds the bytes of
  the field that is open (none is open when it is empty), a rune that satisfies \<open>f\<close>
  closes it, any other rune is added to it. The rune at \<open>c # cs\<close> has the first
  component of \<open>DecodeRuneInString (c # cs)\<close> as its value and the second as its width,
  which is at least 1.
\<close>

fun FieldsFunc :: "(nat \<Rightarrow> bool) \<Rightarrow> string \<Rightarrow> string \<Rightarrow> string list" where
  "FieldsFunc f field [] = (if field = [] then [] else [field])"
| "FieldsFunc f field (c # cs) =
     (if f (fst (DecodeRuneInString (c # cs)))
      then (if field = [] then FieldsFunc f [] (drop (snd (DecodeRuneInString (c # cs)) - 1) cs)
            else field # FieldsFunc f [] (drop (snd (DecodeRuneInString (c # cs)) - 1) cs))
      else FieldsFunc f (field @ c # take (snd (DecodeRuneInString (c # cs)) - 1) cs)
             (drop (snd (DecodeRuneInString (c # cs)) - 1) cs))"

declare FieldsFunc.simps(2) [simp del]

definition Fields :: "string \<Rightarrow> string list" where
  "Fields s = FieldsFunc IsSpace [] s"

text \<open>
  The body of the inner loop (lines 552-564) for row \<open>j\<close>. A row of exactly four fields
  is parsed, a parse error is \<^verbatim>\<open>log.Fatal\<close>, and the two assignments to
  \<^verbatim>\<open>points[i][j]\<close> panic when \<open>j\<close> is not an index of the slice. Any other row leaves
  the slice as it is.
\<close>

definition row_step ::
  "(string \<Rightarrow> real option) \<Rightarrow> XY list \<Rightarrow> nat \<Rightarrow> string \<Rightarrow> error + XY list" where
  "row_step ParseFloat points j row =
     (let values = Fields row in
      if length values = 4 then
        (case ParseFloat (values ! 3) of
           None \<Rightarrow> Inl LogFatal
         | Some x \<Rightarrow>
             (case ParseFloat (values ! 0) of
                None \<Rightarrow> Inl LogFatal
              | Some y \<Rightarrow>
                  if j < length points
                  then let points1 = points[j := (points ! j)\<lparr>X := x\<rparr>]
                       in Inr (points1[j := (points1 ! j)\<lparr>Y := y\<rparr>])
                  else Inl Panic))
      else Inr points)"

fun rows_loop ::
  "(string \<Rightarrow> real option) \<Rightarrow> XY list \<Rightarrow> nat \<Rightarrow> string list \<Rightarrow> error + XY list" where
  "rows_loop ParseFloat points j [] = Inr points"
| "rows_loop ParseFloat points j (row # rows) =
     (case row_step ParseFloat points j row of
        Inl err \<Rightarrow> Inl err
      | Inr points' \<Rightarrow> rows_loop ParseFloat points' (Suc j) rows)"

text \<open>
  Lines 548-565 for one endpoint, from the reporter's output \<open>bufferString\<close>: the rows
  are the pieces after the first, the slice gets one point less than there are rows
  (\<^verbatim>\<open>make\<close> panics on the length \<open>-1\<close>), and every row is visited.
\<close>

definition graph_points :: "(string \<Rightarrow> real option) \<Rightarrow> string \<Rightarrow> error + XY list" where
  "graph_points ParseFloat bufferString =
     (let rows = drop 1 (Split bufferString newline) in
      if rows = [] then Inl Panic
      else rows_loop ParseFloat (replicate (length rows - 1) \<lparr>X = 0, Y = 0\<rparr>) 0 rows)"

text \<open>The outer loop (line 544), over the reporter outputs of the endpoints in order.\<close>

fun points_loop :: "(string \<Rightarrow> real option) \<Rightarrow> string list \<Rightarrow> error + XY list list" where
  "points_loop ParseFloat [] = Inr []"
| "points_loop ParseFloat (bufferString # rest) =
     (case graph_points ParseFloat bufferString of
        Inl err \<Rightarrow> Inl err
      | Inr series \<Rightarrow>
          (case points_loop ParseFloat rest of
             Inl err \<Rightarrow> Inl err
           | Inr points \<Rightarrow> Inr (series # points)))"

text \<open>
  The safety condition of the writes, for one reporter output: every row of exactly
  four fields has an index below the length of the slice allocated for it.
\<close>

definition writes_in_bounds :: "string \<Rightarrow> bool" where
  "writes_in_bounds bufferString =
     (let rows = drop 1 (Split bufferString newline) in
      list_all (\<lambda>j. length (Fields (rows ! j)) = 4 \<longrightarrow> int j < int (length rows) - 1)
        [0..<length rows])"

text \<open>A \<^verbatim>\<open>ParseFloat\<close> for examples: it knows four numerals and rejects the rest.\<close>

definition example_ParseFloat :: "string \<Rightarrow> real option" where
  "example_ParseFloat s =
     (if s = ''1'' then Some 1 else if s = ''2.5'' then Some 2.5
      else if s = ''4'' then Some 4 else if s = ''10'' then Some 10 else None)"

text \<open>
  The histogram reporter belongs to the engine. It writes a header line and then one
  line per quantile, and it ends every line it writes with a line feed; this is all the
  model says of it. \<open>reporter_output header rows\<close> is the text it writes for a header
  and a list of rows.
\<close>

definition reporter_output :: "string \<Rightarrow> string list \<Rightarrow> string" where
  "reporter_output header rows = concat (map (\<lambda>line. line @ [newline]) (header # rows))"

text \<open>
  What the transform makes of one row, in the words of the specification: a row of
  exactly four fields gives the point of its fourth and first field, unless one of them
  is no number (\<open>None\<close>); any other row gives no error and leaves the zero point.
\<close>

definition row_point :: "(string \<Rightarrow> real option) \<Rightarrow> string \<Rightarrow> XY option" where
  "row_point parse row =
     (let values = Fields row in
      if length values = 4 then
        (case parse (values ! 3) of
           None \<Rightarrow> None
         | Some x \<Rightarrow>
             (case parse (values ! 0) of
                None \<Rightarrow> None
              | Some y \<Rightarrow> Some \<lparr>X = x, Y = y\<rparr>))
      else Some \<lparr>X = 0, Y = 0\<rparr>)"

section \<open>The environment of a run\<close>

text \<open>
  Everything the program obtains from outside is a field of \<open>world\<close>, so that every
  function of the model is a function of its arguments:
  \<^item> the file system (\<^verbatim>\<open>os.Open\<close>, \<^verbatim>\<open>ioutil.ReadAll\<close>);
  \<^item> the two decoders up to the point where they hand one list element to
    \<^verbatim>\<open>UnmarshalJSON\<close> / \<^verbatim>\<open>UnmarshalYAML\<close> (\<open>None\<close>: the document is no list in that
    encoding), and the decoders of the Splunk settings;
  \<^item> \<^verbatim>\<open>time.ParseDuration\<close>, in nanoseconds (\<open>None\<close> is its error);
  \<^item> the load-generation engine: \<open>Attack w i e\<close> is the finished \<^verbatim>\<open>vegeta.Metrics\<close> of the
    \<open>i\<close>-th run, made against endpoint \<open>e\<close>;
  \<^item> the histogram reporter, \<^verbatim>\<open>strconv.ParseFloat\<close>, the plotting library, the embedded
    fonts and logo, and the writing of the PDF file;
  \<^item> clock, host name, and the HTTP client with the sink behind it: \<open>client_Do w k req\<close>
    is the answer to the \<open>k\<close>-th request (\<open>None\<close>: the transport error of \<^verbatim>\<open>client.Do\<close>).
\<close>

datatype file_result = OpenError | ReadError | Contents string

record 'm request =
  req_method :: string
  req_url :: string
  req_authorization :: string
  req_content_type :: string
  req_body :: "'m splunkEvent"

record response =
  StatusCode :: nat
  resp_body :: string
  body_read_error :: bool

record 'm world =
  zero_metrics :: 'm
  ReadFile :: "string \<Rightarrow> file_result"
  json_elements :: "string \<Rightarrow> 'm element list option"
  yaml_elements :: "string \<Rightarrow> 'm element list option"
  json_settings :: "string \<Rightarrow> splunkSettings option"
  yaml_settings :: "string \<Rightarrow> splunkSettings option"
  ParseDuration :: "string \<Rightarrow> int option"
  Attack :: "nat \<Rightarrow> 'm endpointDetails \<Rightarrow> 'm"
  HDRReport :: "'m \<Rightarrow> string"
  ParseFloat :: "string \<Rightarrow> real option"
  plot_ok :: "XY list list \<Rightarrow> bool"
  assets_ok :: bool
  pdf_output_ok :: "string \<Rightarrow> bool"
  Now :: "nat \<Rightarrow> int"
  Hostname :: "nat \<Rightarrow> string option"
  NewRequest_ok :: "string \<Rightarrow> bool"
  client_Do :: "nat \<Rightarrow> 'm request \<Rightarrow> response option"

text \<open>
  What a run does to the outside, in the order in which it does it. \<open>Run\<close> and \<open>Post\<close>
  are the two places where the program uses the network.
\<close>

datatype 'm event =
    ShowProgressBar "int list"
      \<comment> \<open>\<^verbatim>\<open>go showProgressBar(int(sum))\<close>, with the parsed durations the sum is taken of\<close>
  | Run nat "'m endpointDetails list"
      \<comment> \<open>the engine runs for endpoint \<open>i\<close>; the list is \<^verbatim>\<open>endpointList\<close> at that moment\<close>
  | PrintText "'m endpointDetails list"
  | WritePDF string "'m endpointDetails list" "XY list list"
  | PrintJson "'m endpointDetails list"
  | Post "'m request"
      \<comment> \<open>\<^verbatim>\<open>client.Do(req)\<close>: the request is handed to the HTTP client\<close>
  | LogPrint string

section \<open>Forwarding to Splunk (sendJsonToSplunk, lines 363-398)\<close>

text \<open>The request built in one round of the loop (lines 371-381); its body is the
  event, which the code sends as JSON.\<close>

definition splunk_request ::
  "splunkSettings \<Rightarrow> int \<Rightarrow> string \<Rightarrow> 'm endpointDetails \<Rightarrow> 'm request" where
  "splunk_request settings now name endpoint =
     \<lparr>req_method = ''POST'',
      req_url = Url settings,
      req_authorization = Authkey settings,
      req_content_type = ''application/json'',
      req_body = \<lparr>Time = now, Host = name, Source = splunkSettings.Source settings, Event = endpoint\<rparr>\<rparr>"

text \<open>
  The loop body for endpoint \<open>i\<close> and the rest of the loop. The result is the trace and
  how the function ended: \<open>None\<close> for a return (the normal one at the end, or the early
  one after a body that could not be read), \<open>Some Panic\<close> for a panic. The error of
  \<^verbatim>\<open>http.NewRequest\<close> is overwritten unread; after it \<open>req\<close> is nil and the next line
  panics. The response is used for its body alone: \<open>StatusCode\<close> is never read.
\<close>

fun forward_loop ::
  "'m world \<Rightarrow> splunkSettings \<Rightarrow> nat \<Rightarrow> 'm endpointDetails list \<Rightarrow> 'm event list \<times> error option" where
  "forward_loop w settings i [] = ([], None)"
| "forward_loop w settings i (endpoint # rest) =
     (case Hostname w i of
        None \<Rightarrow> ([], Some Panic)
      | Some name \<Rightarrow>
          if \<not> NewRequest_ok w (Url settings) then ([], Some Panic)
          else
            (let req = splunk_request settings (Now w i) name endpoint in
             case client_Do w i req of
               None \<Rightarrow> ([Post req], Some Panic)
             | Some resp \<Rightarrow>
                 if body_read_error resp
                 then ([Post req, LogPrint (resp_body resp), LogPrint ''Reading body failed''],
                       None)
                 else
                   (case forward_loop w settings (Suc i) rest of
                      (trace, result) \<Rightarrow>
                        (Post req # LogPrint (resp_body resp) # trace, result))))"

definition sendJsonToSplunk ::
  "'m world \<Rightarrow> 'm endpointDetails list \<Rightarrow> splunkSettings \<Rightarrow> 'm event list \<times> error option" where
  "sendJsonToSplunk w endpoints settings = forward_loop w settings 0 endpoints"

text \<open>The request of round \<open>i\<close>, when the host name can be read.\<close>

definition request_for ::
  "'m world \<Rightarrow> splunkSettings \<Rightarrow> nat \<Rightarrow> 'm endpointDetails \<Rightarrow> 'm request" where
  "request_for w settings i endpoint =
     splunk_request settings (Now w i) (case Hostname w i of None \<Rightarrow> [] | Some name \<Rightarrow> name)
       endpoint"

text \<open>The requests of a trace, in order.\<close>

fun posts :: "'m event list \<Rightarrow> 'm request list" where
  "posts [] = []"
| "posts (Post req # trace) = req # posts trace"
| "posts (ev # trace) = posts trace"

section \<open>The command line and the action of the program (main, lines 62-176)\<close>

text \<open>
  The flags as \<^verbatim>\<open>cli.Context\<close> presents them: \<open>None\<close> for a flag that is not set. A flag
  that is not set reads as \<^verbatim>\<open>false\<close> or as the empty string.
\<close>

record cli_flags =
  flag_file :: "string option"
  flag_data :: "string option"
  flag_output :: "string option"
  flag_print :: "bool option"
  flag_json :: "bool option"
  flag_splunk :: "string option"
  flag_quiet :: "bool option"

definition IsSet :: "'a option \<Rightarrow> bool" where
  "IsSet flag \<longleftrightarrow> flag \<noteq> None"

definition Bool :: "bool option \<Rightarrow> bool" where
  "Bool flag = (case flag of None \<Rightarrow> False | Some b \<Rightarrow> b)"

definition String :: "string option \<Rightarrow> string" where
  "String flag = (case flag of None \<Rightarrow> [] | Some s \<Rightarrow> s)"

text \<open>\<^verbatim>\<open>filepath.Ext\<close>: the suffix from the last dot of the last path element, or nothing.\<close>

fun Ext_scan :: "string \<Rightarrow> string \<Rightarrow> string" where
  "Ext_scan [] suffix = []"
| "Ext_scan (c # before) suffix =
     (if c = CHR ''/'' then []
      else if c = CHR ''.'' then c # suffix
      else Ext_scan before (c # suffix))"

definition Ext :: "string \<Rightarrow> string" where
  "Ext path = Ext_scan (rev path) []"

subsection \<open>Loading the input (lines 178-263)\<close>

text \<open>Decoding a list: the unmarshaler of the element type runs on every element, and
  the first error ends the decoding.\<close>

fun unmarshal_elements ::
  "('m element \<Rightarrow> error + 'm endpointDetails) \<Rightarrow> 'm element list \<Rightarrow> error + 'm endpointDetails list" where
  "unmarshal_elements unmarshal [] = Inr []"
| "unmarshal_elements unmarshal (el # els) =
     (case unmarshal el of
        Inl err \<Rightarrow> Inl err
      | Inr details \<Rightarrow>
          (case unmarshal_elements unmarshal els of
             Inl err \<Rightarrow> Inl err
           | Inr rest \<Rightarrow> Inr (details # rest)))"

definition json_Unmarshal :: "'m world \<Rightarrow> string \<Rightarrow> error + 'm endpointDetails list" where
  "json_Unmarshal w byteValue =
     (case json_elements w byteValue of
        None \<Rightarrow> Inl DecodeError
      | Some els \<Rightarrow> unmarshal_elements (UnmarshalJSON (zero_metrics w)) els)"

definition yaml_Unmarshal :: "'m world \<Rightarrow> string \<Rightarrow> error + 'm endpointDetails list" where
  "yaml_Unmarshal w byteValue =
     (case yaml_elements w byteValue of
        None \<Rightarrow> Inl DecodeError
      | Some els \<Rightarrow> unmarshal_elements (UnmarshalYAML (zero_metrics w)) els)"

definition parseEndpointsJSON :: "'m world \<Rightarrow> string \<Rightarrow> error + 'm endpointDetails list" where
  "parseEndpointsJSON w file =
     (case ReadFile w file of
        OpenError \<Rightarrow> Inl LogFatal
      | ReadError \<Rightarrow> Inl Panic
      | Contents byteValue \<Rightarrow>
          (case json_Unmarshal w byteValue of
             Inl err \<Rightarrow> Inl Panic
           | Inr temp \<Rightarrow> Inr temp))"

definition parseEndpointsYAML :: "'m world \<Rightarrow> string \<Rightarrow> error + 'm endpointDetails list" where
  "parseEndpointsYAML w file =
     (case ReadFile w file of
        OpenError \<Rightarrow> Inl LogFatal
      | ReadError \<Rightarrow> Inl Panic
      | Contents byteValue \<Rightarrow>
          (case yaml_Unmarshal w byteValue of
             Inl err \<Rightarrow> Inl Panic
           | Inr temp \<Rightarrow> Inr temp))"

definition parseJSONString :: "'m world \<Rightarrow> string \<Rightarrow> error + 'm endpointDetails list" where
  "parseJSONString w val =
     (case json_Unmarshal w val of
        Inl err \<Rightarrow> Inl Panic
      | Inr temp \<Rightarrow> Inr temp)"

definition parseSplunkSettingsJSON :: "'m world \<Rightarrow> string \<Rightarrow> error + splunkSettings" where
  "parseSplunkSettingsJSON w file =
     (case ReadFile w file of
        OpenError \<Rightarrow> Inl LogFatal
      | ReadError \<Rightarrow> Inl Panic
      | Contents byteValue \<Rightarrow>
          (case json_settings w byteValue of
             None \<Rightarrow> Inl Panic
           | Some temp \<Rightarrow> Inr temp))"

definition parseSplunkSettingsYAML :: "'m world \<Rightarrow> string \<Rightarrow> error + splunkSettings" where
  "parseSplunkSettingsYAML w file =
     (case ReadFile w file of
        OpenError \<Rightarrow> Inl LogFatal
      | ReadError \<Rightarrow> Inl Panic
      | Contents byteValue \<Rightarrow>
          (case yaml_settings w byteValue of
             None \<Rightarrow> Inl Panic
           | Some temp \<Rightarrow> Inr temp))"

text \<open>The last two branches of the chain at lines 110-124: the endpoint list is read
  from the file when its extension names an encoding, from the inline data when there
  is no file, and is left nil otherwise.\<close>

definition load_endpoints :: "'m world \<Rightarrow> cli_flags \<Rightarrow> error + 'm endpointDetails list" where
  "load_endpoints w c =
     (if IsSet (flag_file c) then
        (if Ext (String (flag_file c)) = ''.json''
         then parseEndpointsJSON w (String (flag_file c))
         else if Ext (String (flag_file c)) = ''.yml'' \<or> Ext (String (flag_file c)) = ''.yaml''
         then parseEndpointsYAML w (String (flag_file c))
         else Inr [])
      else if IsSet (flag_data c) then parseJSONString w (String (flag_data c))
      else Inr [])"

text \<open>Lines 126-133; the settings keep their zero value when nothing is read.\<close>

definition zero_settings :: splunkSettings where
  "zero_settings = \<lparr>Url = [], Authkey = [], splunkSettings.Source = []\<rparr>"

definition load_splunk_settings :: "'m world \<Rightarrow> cli_flags \<Rightarrow> error + splunkSettings" where
  "load_splunk_settings w c =
     (if IsSet (flag_splunk c) then
        (if Ext (String (flag_splunk c)) = ''.json''
         then parseSplunkSettingsJSON w (String (flag_splunk c))
         else if Ext (String (flag_splunk c)) = ''.yml'' \<or> Ext (String (flag_splunk c)) = ''.yaml''
         then parseSplunkSettingsYAML w (String (flag_splunk c))
         else Inr zero_settings)
      else Inr zero_settings)"

subsection \<open>Durations, runs and reports\<close>

text \<open>The loop at lines 137-143: every duration is parsed, the first error is
  \<^verbatim>\<open>log.Fatal\<close> (\<open>None\<close>).\<close>

fun parse_durations :: "'m world \<Rightarrow> 'm endpointDetails list \<Rightarrow> int list option" where
  "parse_durations w [] = Some []"
| "parse_durations w (endpoint # rest) =
     (case ParseDuration w (Duration (Query endpoint)) of
        None \<Rightarrow> None
      | Some duration \<Rightarrow>
          (case parse_durations w rest of
             None \<Rightarrow> None
           | Some durations \<Rightarrow> Some (duration # durations)))"

text \<open>\<^verbatim>\<open>queryAPI\<close> (lines 305-333) as the \<open>i\<close>-th run of the engine: it blocks until the
  attack is over and returns the closed metrics.\<close>

definition queryAPI :: "'m world \<Rightarrow> nat \<Rightarrow> 'm endpointDetails \<Rightarrow> error + 'm" where
  "queryAPI w i endpoint =
     (case ParseDuration w (Duration (Query endpoint)) of
        None \<Rightarrow> Inl LogFatal
      | Some duration \<Rightarrow> Inr (Attack w i endpoint))"

text \<open>
  The loop at lines 150-152. \<open>finished\<close> are the elements before index \<open>i\<close>, which have
  their metrics; the others follow. Each round calls \<^verbatim>\<open>queryAPI\<close> on element \<open>i\<close> and
  stores the result in it before the next round starts.
\<close>

fun query_loop ::
  "'m world \<Rightarrow> 'm endpointDetails list \<Rightarrow> 'm endpointDetails list
     \<Rightarrow> 'm event list \<times> (error + 'm endpointDetails list)" where
  "query_loop w finished [] = ([], Inr finished)"
| "query_loop w finished (endpoint # rest) =
     (case queryAPI w (length finished) endpoint of
        Inl err \<Rightarrow> ([], Inl err)
      | Inr metrics \<Rightarrow>
          (case query_loop w (finished @ [endpoint\<lparr>Metrics := metrics\<rparr>]) rest of
             (trace, result) \<Rightarrow>
               (Run (length finished) (finished @ endpoint # rest) # trace, result)))"

text \<open>\<^verbatim>\<open>createGraph\<close> up to the plot, and \<^verbatim>\<open>createPDF\<close> (lines 406-529).\<close>

definition createGraph :: "'m world \<Rightarrow> 'm endpointDetails list \<Rightarrow> error + XY list list" where
  "createGraph w endpoints =
     (case points_loop (ParseFloat w) (map (\<lambda>endpoint. HDRReport w (Metrics endpoint)) endpoints) of
        Inl err \<Rightarrow> Inl err
      | Inr points \<Rightarrow> if plot_ok w points then Inr points else Inl Panic)"

definition createPDF ::
  "'m world \<Rightarrow> 'm endpointDetails list \<Rightarrow> string \<Rightarrow> 'm event list \<times> error option" where
  "createPDF w endpoints output =
     (if \<not> assets_ok w then ([], Some LogFatal)
      else
        (case createGraph w endpoints of
           Inl err \<Rightarrow> ([], Some err)
         | Inr points \<Rightarrow>
             if pdf_output_ok w output then ([WritePDF output endpoints points], None)
             else ([], Some LogFatal)))"

text \<open>Lines 153-169: the four emitters, in this order, each under its flag.\<close>

definition emit_reports ::
  "'m world \<Rightarrow> cli_flags \<Rightarrow> 'm endpointDetails list \<Rightarrow> splunkSettings
     \<Rightarrow> 'm event list \<times> error option" where
  "emit_reports w c endpointList settings =
     (let text_trace = (if Bool (flag_print c) then [PrintText endpointList] else []) in
      case (if IsSet (flag_output c) then createPDF w endpointList (String (flag_output c))
            else ([], None)) of
        (pdf_trace, Some err) \<Rightarrow> (text_trace @ pdf_trace, Some err)
      | (pdf_trace, None) \<Rightarrow>
          (let json_trace = (if IsSet (flag_json c) then [PrintJson endpointList] else []) in
           case (if IsSet (flag_splunk c) then sendJsonToSplunk w endpointList settings
                 else ([], None)) of
             (splunk_trace, result) \<Rightarrow>
               (text_trace @ pdf_trace @ json_trace @ splunk_trace, result)))"

text \<open>
  The action (lines 106-170). The result is the trace of the run and how it ended:
  \<open>None\<close> for \<^verbatim>\<open>return nil\<close>, \<open>Some LogFatal\<close> and \<open>Some Panic\<close> for the two fatal ends.
  The progress bar runs in a goroutine of its own; its event marks where it is started.
\<close>

definition main :: "'m world \<Rightarrow> cli_flags \<Rightarrow> 'm event list \<times> error option" where
  "main w c =
     (if \<not> IsSet (flag_file c) \<and> \<not> IsSet (flag_data c) then ([], Some LogFatal)
      else if IsSet (flag_file c) \<and> IsSet (flag_data c) then ([], Some LogFatal)
      else if \<not> IsSet (flag_output c) \<and> \<not> Bool (flag_print c) \<and> \<not> Bool (flag_json c)
              \<and> String (flag_splunk c) = [] then ([], Some LogFatal)
      else
        (case load_endpoints w c of
           Inl err \<Rightarrow> ([], Some err)
         | Inr endpointList \<Rightarrow>
             (case load_splunk_settings w c of
                Inl err \<Rightarrow> ([], Some err)
              | Inr settings \<Rightarrow>
                  (case parse_durations w endpointList of
                     None \<Rightarrow> ([], Some LogFatal)
                   | Some durations \<Rightarrow>
                       (let bar = (if \<not> IsSet (flag_quiet c) then [ShowProgressBar durations]
                                   else []) in
                        case query_loop w [] endpointList of
                          (runs, Inl err) \<Rightarrow> (bar @ runs, Some err)
                        | (runs, Inr endpointList') \<Rightarrow>
                            (case emit_reports w c endpointList' settings of
                               (reports, result) \<Rightarrow> (bar @ runs @ reports, result)))))))"

section \<open>Descriptions used in the statements, and example runs\<close>

text \<open>The two checks on the flags that the action makes first (lines 110-115), as the
  conditions under which it goes on.\<close>

definition input_selected :: "cli_flags \<Rightarrow> bool" where
  "input_selected c \<longleftrightarrow>
     (IsSet (flag_file c) \<or> IsSet (flag_data c)) \<and> \<not> (IsSet (flag_file c) \<and> IsSet (flag_data c))"

definition output_selected :: "cli_flags \<Rightarrow> bool" where
  "output_selected c \<longleftrightarrow>
     \<not> (\<not> IsSet (flag_output c) \<and> \<not> Bool (flag_print c) \<and> \<not> Bool (flag_json c)
        \<and> String (flag_splunk c) = [])"

text \<open>The input is there, is read, and does not parse under the encoding the program
  takes it to be in: the file's extension for a file, JSON for inline data.\<close>

definition input_parse_fails :: "'m world \<Rightarrow> cli_flags \<Rightarrow> bool" where
  "input_parse_fails w c =
     (case flag_file c of
        Some file \<Rightarrow>
          (case ReadFile w file of
             Contents byteValue \<Rightarrow>
               (Ext file = ''.json'' \<and> isl (json_Unmarshal w byteValue)) \<or>
               ((Ext file = ''.yml'' \<or> Ext file = ''.yaml'') \<and> isl (yaml_Unmarshal w byteValue))
           | _ \<Rightarrow> False)
      | None \<Rightarrow>
          (case flag_data c of
             Some val \<Rightarrow> isl (json_Unmarshal w val)
           | None \<Rightarrow> False))"

text \<open>The endpoint list with the metrics of run \<open>i\<close> attached to element \<open>i\<close>, and the
  list as it stands when run \<open>i\<close> starts: the first \<open>i\<close> elements enriched, the others
  as they were loaded.\<close>

definition enriched :: "'m world \<Rightarrow> 'm endpointDetails list \<Rightarrow> 'm endpointDetails list" where
  "enriched w endpoints =
     map (\<lambda>i. (endpoints ! i)\<lparr>Metrics := Attack w i (endpoints ! i)\<rparr>) [0..<length endpoints]"

definition snapshot :: "'m world \<Rightarrow> 'm endpointDetails list \<Rightarrow> nat \<Rightarrow> 'm endpointDetails list" where
  "snapshot w endpoints i = take i (enriched w endpoints) @ drop i endpoints"

text \<open>The endpoint records that an event shows to the outside.\<close>

fun observed :: "'m event \<Rightarrow> 'm endpointDetails list" where
  "observed (PrintText endpoints) = endpoints"
| "observed (WritePDF output endpoints points) = endpoints"
| "observed (PrintJson endpoints) = endpoints"
| "observed (Post req) = [Event (req_body req)]"
| "observed (Run i endpoints) = []"
| "observed (ShowProgressBar durations) = []"
| "observed (LogPrint s) = []"

text \<open>
  An example world. The metrics of a run are just its number plus one, and zero before
  any run. The file \<^verbatim>\<open>eps.json\<close> holds two endpoints with default query parameters,
  \<^verbatim>\<open>slow.json\<close> the same two with the second duration misspelt, \<^verbatim>\<open>broken.json\<close> is no
  JSON document. Only the duration \<^verbatim>\<open>10s\<close> parses. The sink answers request \<open>k\<close> with
  \<open>replies k\<close>.
\<close>

definition example_element :: "string \<Rightarrow> string option \<Rightarrow> nat element" where
  "example_element url duration =
     Object \<lparr>in_target = Some \<lparr>in_method = Some ''GET'', in_url = Some url, in_body = None,
                               in_header = None\<rparr>,
             in_query_parameters =
               Some \<lparr>in_threads = None, in_max_threads = None, in_connections = None,
                     in_duration = duration, in_request_rate = None\<rparr>,
             in_metrics = None\<rparr>"

definition example_endpoint :: "string \<Rightarrow> nat \<Rightarrow> nat endpointDetails" where
  "example_endpoint url metrics =
     \<lparr>Target = \<lparr>Method = ''GET'', URL = url, Body = [], Header = []\<rparr>,
      Query = \<lparr>Threads = 2, MaxThreads = 2, Connections = 10, Duration = ''10s'',
               RequestRate = 500\<rparr>,
      Metrics = metrics\<rparr>"

definition example_world :: "(nat \<Rightarrow> response option) \<Rightarrow> nat world" where
  "example_world replies =
     \<lparr>zero_metrics = 0,
      ReadFile = (\<lambda>file. if file = ''eps.json'' then Contents ''two''
                         else if file = ''slow.json'' then Contents ''slow''
                         else if file = ''broken.json'' then Contents ''[''
                         else OpenError),
      json_elements = (\<lambda>byteValue.
         if byteValue = ''two''
         then Some [example_element ''http://a'' None, example_element ''http://b'' None]
         else if byteValue = ''slow''
         then Some [example_element ''http://a'' None, example_element ''http://b'' (Some ''10 s'')]
         else None),
      yaml_elements = (\<lambda>byteValue. None),
      json_settings = (\<lambda>byteValue. None),
      yaml_settings = (\<lambda>byteValue. None),
      ParseDuration = (\<lambda>s. if s = ''10s'' then Some 10000000000 else None),
      Attack = (\<lambda>i endpoint. Suc i),
      HDRReport = (\<lambda>metrics. ''h'' @ [newline]),
      ParseFloat = example_ParseFloat,
      plot_ok = (\<lambda>points. True),
      assets_ok = True,
      pdf_output_ok = (\<lambda>output. True),
      Now = (\<lambda>i. 1000 + int i),
      Hostname = (\<lambda>i. Some ''host''),
      NewRequest_ok = (\<lambda>url. True),
      client_Do = (\<lambda>k req. replies k)\<rparr>"

text \<open>
  A plotting stage that refuses a point whose X is not positive: the X axis of the plot
  is logarithmic (line 574), and a logarithmic scale has no place for such a value.
\<close>

definition log_scale_ok :: "XY list list \<Rightarrow> bool" where
  "log_scale_ok points = list_all (list_all (\<lambda>point. 0 < X point)) points"

text \<open>The example world with a reporter that writes a row of three fields before a row
  of four, and with the plotting stage given.\<close>

definition example_graph_world :: "(XY list list \<Rightarrow> bool) \<Rightarrow> nat world" where
  "example_graph_world plot =
     (example_world (\<lambda>k. None))
       \<lparr>HDRReport := (\<lambda>metrics. reporter_output ''h'' [''1 2 3'', ''2.5 x y 10'']),
        plot_ok := plot\<rparr>"

definition example_settings :: splunkSettings where
  "example_settings = \<lparr>Url = ''http://sink'', Authkey = ''Splunk key'', splunkSettings.Source = ''rtapi''\<rparr>"

definition example_three :: "nat endpointDetails list" where
  "example_three =
     [example_endpoint ''http://a'' 1, example_endpoint ''http://b'' 2,
      example_endpoint ''http://c'' 3]"

text \<open>A sink that answers the second request with status 500, and one behind a
  connection that breaks at the second request.\<close>

definition replies_500 :: "nat \<Rightarrow> response option" where
  "replies_500 k =
     Some \<lparr>StatusCode = (if k = 1 then 500 else 200), resp_body = ''{}'', body_read_error = False\<rparr>"

definition replies_broken :: "nat \<Rightarrow> response option" where
  "replies_broken k =
     (if k = 1 then None
      else Some \<lparr>StatusCode = 200, resp_body = ''{}'', body_read_error = False\<rparr>)"

text \<open>The URLs of the endpoints whose events a trace hands to the HTTP client.\<close>

definition posted_urls :: "'m event list \<Rightarrow> string list" where
  "posted_urls trace = map (\<lambda>req. URL (Target (Event (req_body req)))) (posts trace)"

text \<open>Command lines: a file and the text report with the JSON report.\<close>

definition example_flags :: "string \<Rightarrow> cli_flags" where
  "example_flags file =
     \<lparr>flag_file = Some file, flag_data = None, flag_output = None, flag_print = Some True,
      flag_json = Some True, flag_splunk = None, flag_quiet = None\<rparr>"

section \<open>Properties of the configuration resolver\<close>

lemma Unmarshal_Object:
  "UnmarshalJSON z (Object r) =
     Inr \<lparr>Target = decode_target (in_target r) zero_target,
          Query = decode_query (in_query_parameters r) default_query,
          Metrics = set_field (in_metrics r) z\<rparr>"
  "UnmarshalYAML z (Object r) = UnmarshalJSON z (Object r)"
  by (simp_all add: UnmarshalJSON_def UnmarshalYAML_def decode_into_def)

text \<open>
  Claim C1. For every endpoint record that decodes, under either encoding, the resolved
  EndpointSpec exists and each of its query fields is the fixed default (threads 2,
  max_threads 2, connections 10, duration "10s", request_rate 500) when the record omits
  the field, and the value the record gives when it is present, whatever that value is
  (an explicit zero included). A record without \<^verbatim>\<open>query_parameters\<close> gets all five defaults.
\<close>

theorem resolver_defaults_by_presence:
  assumes "dec = UnmarshalJSON \<or> dec = UnmarshalYAML"
  shows "\<exists>d. dec z (Object r) = Inr d \<and>
    (in_query_parameters r = None \<longrightarrow>
       Query d = \<lparr>Threads = 2, MaxThreads = 2, Connections = 10, Duration = ''10s'',
                  RequestRate = 500\<rparr>) \<and>
    (\<forall>q. in_query_parameters r = Some q \<longrightarrow>
       (in_threads q = None \<longrightarrow> Threads (Query d) = 2) \<and>
       (\<forall>v. in_threads q = Some v \<longrightarrow> Threads (Query d) = v) \<and>
       (in_max_threads q = None \<longrightarrow> MaxThreads (Query d) = 2) \<and>
       (\<forall>v. in_max_threads q = Some v \<longrightarrow> MaxThreads (Query d) = v) \<and>
       (in_connections q = None \<longrightarrow> Connections (Query d) = 10) \<and>
       (\<forall>v. in_connections q = Some v \<longrightarrow> Connections (Query d) = v) \<and>
       (in_duration q = None \<longrightarrow> Duration (Query d) = ''10s'') \<and>
       (\<forall>v. in_duration q = Some v \<longrightarrow> Duration (Query d) = v) \<and>
       (in_request_rate q = None \<longrightarrow> RequestRate (Query d) = 500) \<and>
       (\<forall>v. in_request_rate q = Some v \<longrightarrow> RequestRate (Query d) = v))"
proof -
  have eq: "dec z (Object r) = UnmarshalJSON z (Object r)"
    using assms by (auto simp: Unmarshal_Object)
  show ?thesis
    unfolding eq Unmarshal_Object(1)
    by (cases "in_query_parameters r")
       (simp_all add: decode_query_def set_field_def default_query_def)
qed

theorem resolver_defaults_by_presence_witness:
  "\<exists>d. UnmarshalYAML () (Object example_record) = Inr d \<and>
     Threads (Query d) = 5 \<and> MaxThreads (Query d) = 2 \<and> Connections (Query d) = 0 \<and>
     Duration (Query d) = ''10s'' \<and> RequestRate (Query d) = 500"
  using resolver_defaults_by_presence [of UnmarshalYAML "()" example_record]
  by (simp add: example_record_def example_query_def)

text \<open>
  Claim C7, as stated, fails: the resolver compares nothing. The record that sets
  threads to 5 and omits max_threads resolves to threads 5 and max_threads 2.
\<close>

theorem resolver_threads_invariant_counterexample:
  "UnmarshalJSON () (Object example_record) = Inr example_resolved \<and>
   \<not> threads_invariant (Query example_resolved)"
  by (simp add: Unmarshal_Object example_record_def example_query_def example_resolved_def
      decode_target_def decode_query_def set_field_def default_query_def
      threads_invariant_def)

text \<open>
  Claim C7, amended. The resolver passes threads and max_threads through unchecked, so
  the resolved EndpointSpec satisfies threads \<le> max_threads exactly when the two values
  it ends up with do, each being the record's value when present and 2 when absent. In
  particular the invariant holds for every record that omits both fields.
\<close>

theorem resolver_threads_invariant_iff:
  assumes "dec = UnmarshalJSON \<or> dec = UnmarshalYAML"
    and "dec z (Object r) = Inr d"
  shows "(in_query_parameters r = None \<longrightarrow> threads_invariant (Query d)) \<and>
    (\<forall>q. in_query_parameters r = Some q \<longrightarrow>
       (in_threads q = None \<and> in_max_threads q = None \<longrightarrow> threads_invariant (Query d)) \<and>
       (threads_invariant (Query d) \<longleftrightarrow>
          (case in_threads q of None \<Rightarrow> 2 | Some t \<Rightarrow> t)
            \<le> (case in_max_threads q of None \<Rightarrow> 2 | Some m \<Rightarrow> m)))"
proof -
  have "UnmarshalJSON z (Object r) = Inr d"
    using assms by (auto simp: Unmarshal_Object)
  then have d: "Query d = decode_query (in_query_parameters r) default_query"
    by (auto simp: Unmarshal_Object)
  show ?thesis
    unfolding d threads_invariant_def
    by (cases "in_query_parameters r")
       (simp_all add: decode_query_def set_field_def default_query_def)
qed

theorem resolver_threads_invariant_iff_witness:
  "threads_invariant (Query (projr (UnmarshalJSON () (Object example_record_low)))) \<and>
   \<not> threads_invariant (Query (projr (UnmarshalJSON () (Object example_record))))"
proof -
  have low: "UnmarshalJSON () (Object example_record_low)
      = Inr (projr (UnmarshalJSON () (Object example_record_low)))"
    by (simp add: Unmarshal_Object)
  have high: "UnmarshalJSON () (Object example_record)
      = Inr (projr (UnmarshalJSON () (Object example_record)))"
    by (simp add: Unmarshal_Object)
  show ?thesis
    using resolver_threads_invariant_iff [OF disjI1 [OF refl] low]
      resolver_threads_invariant_iff [OF disjI1 [OF refl] high]
    by (simp add: example_record_low_def example_record_def example_query_def)
qed

section \<open>Properties of the Y-axis tick generator\<close>

lemma float64_of_int_exact: "\<bar>i\<bar> \<le> 2 ^ 53 \<Longrightarrow> float64_of_int i = real_of_int i"
  by (simp add: float64_of_int_def)

lemma bitlen_large:
  assumes "2 ^ 53 < a"
  shows "54 \<le> bitlen a" and "2 ^ 52 * 2 ^ nat (bitlen a - 53) \<le> a"
    and "a < 2 ^ 53 * 2 ^ nat (bitlen a - 53)"
proof -
  have pos: "0 < a" using assms by (smt (verit) zero_less_power)
  have b: "2 ^ nat (bitlen a - 1) \<le> a" "a < 2 ^ nat (bitlen a)"
    using bitlen_bounds [OF pos] by auto
  have "(2::int) ^ 53 < 2 ^ nat (bitlen a)" using assms b(2) by linarith
  then have "53 < nat (bitlen a)" by (rule power_less_imp_less_exp [rotated]) simp
  then show bl: "54 \<le> bitlen a" by linarith
  have s1: "nat (bitlen a - 1) = 52 + nat (bitlen a - 53)" using bl by simp
  have s2: "nat (bitlen a) = 53 + nat (bitlen a - 53)" using bl by simp
  show "2 ^ 52 * 2 ^ nat (bitlen a - 53) \<le> a"
    using b(1) unfolding s1 power_add .
  show "a < 2 ^ 53 * 2 ^ nat (bitlen a - 53)"
    using b(2) by (subst (asm) s2) (simp only: power_add)
qed

lemma round_to_53_bits_lower:
  assumes "2 ^ 53 < a"
  shows "2 ^ 53 \<le> round_to_53_bits a"
proof -
  define e where "e = nat (bitlen a - 53)"
  define q where "q = a div 2 ^ e"
  define q' where "q' = (if 2 ^ e < 2 * (a mod 2 ^ e) \<or> (2 * (a mod 2 ^ e) = 2 ^ e \<and> odd q)
                          then q + 1 else q)"
  have e1: "1 \<le> e" using bitlen_large(1) [OF assms] by (simp add: e_def)
  have "(2::int) ^ 52 * 2 ^ e \<le> a" using bitlen_large(2) [OF assms] by (simp only: e_def)
  then have "(2::int) ^ 52 * 2 ^ e div 2 ^ e \<le> a div 2 ^ e" by (rule zdiv_mono1) simp
  then have "(2::int) ^ 52 \<le> q" by (simp add: q_def)
  then have q52: "(2::int) ^ 52 \<le> q'" by (simp add: q'_def)
  have p: "(2::int) ^ 1 \<le> 2 ^ e" by (rule power_increasing) (use e1 in simp_all)
  have "(2::int) ^ 52 * 2 ^ 1 \<le> q' * 2 ^ e"
    by (rule mult_mono [OF q52 p]) (use q52 in simp_all)
  moreover have "round_to_53_bits a = q' * 2 ^ e"
    by (simp add: round_to_53_bits_def Let_def e_def q_def q'_def)
  ultimately show ?thesis by simp
qed

lemma round_to_53_bits_upper:
  assumes "2 ^ 53 < a" and "a < 2 ^ 63"
  shows "round_to_53_bits a \<le> 2 ^ 63"
proof -
  define e where "e = nat (bitlen a - 53)"
  define q where "q = a div 2 ^ e"
  define q' where "q' = (if 2 ^ e < 2 * (a mod 2 ^ e) \<or> (2 * (a mod 2 ^ e) = 2 ^ e \<and> odd q)
                          then q + 1 else q)"
  have lo: "(2::int) ^ 52 * 2 ^ e \<le> a" using bitlen_large(2) [OF assms(1)] by (simp only: e_def)
  have "(2::int) ^ 52 * 2 ^ e < 2 ^ 52 * 2 ^ 11" using lo assms(2) by simp
  then have "(2::int) ^ e < 2 ^ 11" by simp
  then have "e < 11" by (rule power_less_imp_less_exp [rotated]) simp
  then have e10: "e \<le> 10" by simp
  have "a < 2 ^ 53 * 2 ^ e" using bitlen_large(3) [OF assms(1)] by (simp only: e_def)
  moreover have "q * 2 ^ e \<le> a"
  proof -
    have "0 \<le> a mod 2 ^ e" by simp
    moreover have "q * 2 ^ e = a - a mod 2 ^ e"
      by (simp add: q_def minus_mod_eq_div_mult)
    ultimately show ?thesis by linarith
  qed
  ultimately have "q * 2 ^ e < 2 ^ 53 * 2 ^ e" by (rule le_less_trans [rotated])
  then have "q < 2 ^ 53" by (simp only: mult_less_cancel_right_pos zero_less_power zero_less_numeral)
  then have q53: "q' \<le> 2 ^ 53" by (simp add: q'_def)
  have "0 \<le> a div 2 ^ e" using assms(1) by (simp add: pos_imp_zdiv_nonneg_iff)
  then have q0: "0 \<le> q'" by (simp add: q'_def q_def)
  have p: "(2::int) ^ e \<le> 2 ^ 10" by (rule power_increasing) (use e10 in simp_all)
  have "q' * 2 ^ e \<le> 2 ^ 53 * 2 ^ 10"
    by (rule mult_mono [OF q53 p]) simp_all
  moreover have "round_to_53_bits a = q' * 2 ^ e"
    by (simp add: round_to_53_bits_def Let_def e_def q_def q'_def)
  ultimately show ?thesis by simp
qed

lemma float64_of_int_large:
  assumes "2 ^ 53 < i"
  shows "2 ^ 53 \<le> float64_of_int i"
proof -
  have "float64_of_int i = real_of_int (round_to_53_bits i)"
    using assms by (simp add: float64_of_int_def)
  moreover have "real_of_int (2 ^ 53) \<le> real_of_int (round_to_53_bits i)"
    using round_to_53_bits_lower [OF assms] by (rule of_int_le_iff [THEN iffD2])
  ultimately show ?thesis by simp
qed

lemma float64_of_int_le_2_63:
  assumes "i < 2 ^ 63"
  shows "float64_of_int i \<le> 2 ^ 63"
proof -
  consider "\<bar>i\<bar> \<le> 2 ^ 53" | "i < - (2 ^ 53)" | "2 ^ 53 < i" by linarith
  then show ?thesis
  proof cases
    case 1
    have "i \<le> 2 ^ 63" using assms by linarith
    then have "real_of_int i \<le> real_of_int (2 ^ 63)" by (rule of_int_le_iff [THEN iffD2])
    with 1 show ?thesis by (simp add: float64_of_int_exact)
  next
    case 2
    then have "2 ^ 53 < - i" by linarith
    then have "2 ^ 53 \<le> round_to_53_bits (- i)"
      by (rule round_to_53_bits_lower)
    then have "0 \<le> round_to_53_bits (- i)" by simp
    then have "0 \<le> real_of_int (round_to_53_bits (- i))" by simp
    moreover have "float64_of_int i = - real_of_int (round_to_53_bits (- i))"
      using 2 by (simp add: float64_of_int_def)
    ultimately show ?thesis by simp
  next
    case 3
    have "real_of_int (round_to_53_bits i) \<le> real_of_int (2 ^ 63)"
      using round_to_53_bits_upper [OF 3 assms] by (rule of_int_le_iff [THEN iffD2])
    moreover have "float64_of_int i = real_of_int (round_to_53_bits i)"
      using 3 by (simp add: float64_of_int_def)
    ultimately show ?thesis by simp
  qed
qed


lemma floor_50_bounds:
  fixes y t :: real
  shows "y / 50 < t + 1 \<Longrightarrow> y < 50 * (t + 1)" and "t \<le> y / 50 \<Longrightarrow> 50 * (t + 1) \<le> y + 50"
  by (simp_all add: field_simps)

lemma sint_multiple_of_50:
  assumes "50 * int k < 2 ^ 63"
  shows "sint (word_of_int (50 * int k) :: 64 word) = 50 * int k"
proof -
  have lo: "- (2 ^ 63) \<le> 50 * int k" by (smt (verit) of_nat_0_le_iff zero_less_power)
  show ?thesis
    unfolding sint_sbintrunc' by (rule signed_take_bit_int_eq_self) (use lo assms in simp_all)
qed

lemma Ticks_loop_run:
  assumes "0 \<le> ymax" and "ymax < 2 ^ 53" and "k \<le> Suc (nat \<lfloor>ymax / 50\<rfloor>)"
  shows "Ticks_loop (word_of_int (50 * int k)) ymax acc
           = Some (acc @ map tick_at [k..<Suc (nat \<lfloor>ymax / 50\<rfloor>)])"
  using assms(3)
proof (induction "Suc (nat \<lfloor>ymax / 50\<rfloor>) - k" arbitrary: k acc)
  case 0
  then have k: "k = Suc (nat \<lfloor>ymax / 50\<rfloor>)" by simp
  have fl: "0 \<le> \<lfloor>ymax / 50\<rfloor>" using assms(1) by simp
  then have rk: "real k = real_of_int \<lfloor>ymax / 50\<rfloor> + 1" by (simp add: k)
  have "ymax / 50 < real_of_int \<lfloor>ymax / 50\<rfloor> + 1" by (rule real_of_int_floor_add_one_gt)
  then have gt: "ymax < 50 * real k" unfolding rk by (rule floor_50_bounds)
  have "50 * real k \<le> ymax + 50"
  proof -
    have "real_of_int \<lfloor>ymax / 50\<rfloor> \<le> ymax / 50" by (rule of_int_floor_le)
    then show ?thesis unfolding rk by (rule floor_50_bounds)
  qed
  then have "50 * real k < 2 ^ 63" using assms(2) by simp
  then have "real_of_int (50 * int k) < real_of_int (2 ^ 63)" by simp
  then have small: "50 * int k < 2 ^ 63" by (simp only: of_int_less_iff)
  have "ymax < float64_of_int (50 * int k)"
  proof (cases "50 * int k \<le> 2 ^ 53")
    case True
    then have "float64_of_int (50 * int k) = real_of_int (50 * int k)"
      by (intro float64_of_int_exact) simp
    with gt show ?thesis by simp
  next
    case False
    then have "2 ^ 53 \<le> float64_of_int (50 * int k)"
      by (intro float64_of_int_large) simp
    with assms(2) show ?thesis by linarith
  qed
  then have nle: "\<not> float64_of_int (sint (word_of_int (50 * int k) :: 64 word)) \<le> ymax"
    by (simp only: sint_multiple_of_50 [OF small] not_le)
  have emp: "[k..<Suc (nat \<lfloor>ymax / 50\<rfloor>)] = []" using k by simp
  show ?case
    by (subst Ticks_loop.simps) (simp only: nle if_False emp list.map append_Nil2)
next
  case (Suc d)
  then have kn: "k \<le> nat \<lfloor>ymax / 50\<rfloor>" by linarith
  have fl: "0 \<le> \<lfloor>ymax / 50\<rfloor>" using assms(1) by simp
  have "int k \<le> \<lfloor>ymax / 50\<rfloor>" using kn by (simp only: le_nat_iff [OF fl])
  then have "real_of_int (int k) \<le> ymax / 50" by (simp only: le_floor_iff)
  then have le: "50 * real k \<le> ymax" by simp
  then have "real_of_int (50 * int k) < real_of_int (2 ^ 53)" using assms(2) by simp
  then have lt53: "50 * int k < 2 ^ 53" by (simp only: of_int_less_iff)
  then have small: "50 * int k < 2 ^ 63" by simp
  have exact: "float64_of_int (50 * int k) = 50 * real k"
    using lt53 by (subst float64_of_int_exact) simp_all
  have next_i: "(word_of_int (50 * int k) :: 64 word) + 50 = word_of_int (50 * int (Suc k))"
    by simp
  have IH: "Ticks_loop (word_of_int (50 * int (Suc k))) ymax (acc @ [tick_at k])
              = Some ((acc @ [tick_at k]) @ map tick_at [Suc k..<Suc (nat \<lfloor>ymax / 50\<rfloor>)])"
    using Suc.hyps(2) kn by (intro Suc.hyps(1)) simp_all
  have cons: "[k..<Suc (nat \<lfloor>ymax / 50\<rfloor>)] = k # [Suc k..<Suc (nat \<lfloor>ymax / 50\<rfloor>)]"
    using kn by (simp add: upt_conv_Cons)
  have step: "Ticks_loop (word_of_int (50 * int k)) ymax acc
      = Ticks_loop (word_of_int (50 * int (Suc k))) ymax (acc @ [tick_at k])"
    by (subst Ticks_loop.simps)
       (simp only: sint_multiple_of_50 [OF small] exact le if_True next_i tick_at_def)
  show ?case unfolding step IH cons by simp
qed

lemma Ticks_loop_diverges:
  "Ticks_loop i (2 ^ 63) acc = None"
proof (rule ccontr)
  assume "Ticks_loop i (2 ^ 63) acc \<noteq> None"
  then obtain r where r: "Ticks_loop i (2 ^ 63) acc = Some r" by auto
  have "ymax \<noteq> 2 ^ 63" if "Ticks_loop i ymax acc = Some r" for ymax
    using that
  proof (induction i ymax acc r rule: Ticks_loop.raw_induct [rotated, consumes 1])
    case (1 loop i ymax ticks r)
    have "sint i < 2 ^ 63" using sint_lt [of i] by simp
    then have "float64_of_int (sint i) \<le> 2 ^ 63" by (rule float64_of_int_le_2_63)
    with 1 show ?case by (auto split: if_splits)
  qed
  with r show False by blast
qed

text \<open>
  Claim C8, as stated, fails for large maxima: the counter is a 64-bit \<^verbatim>\<open>int\<close>. For
  \<open>max = 2 ^ 63\<close> (a \<^verbatim>\<open>float64\<close> value) every value the counter can take converts to a
  number \<open>\<le> max\<close>, the counter wraps around instead of passing \<open>max\<close>, and the generator
  never returns a tick list.
\<close>

theorem Ticks_unbounded_counterexample: "Ticks 0 (2 ^ 63) = None"
  by (simp only: Ticks_def Ticks_loop_diverges option.case)

text \<open>
  Claim C8, amended. For every maximum with \<open>0 \<le> max < 2 ^ 53\<close> the generator returns,
  and its result is exactly: one tick at every multiple of 50 from 0 up to and including
  \<open>max\<close>, in increasing order, each labelled with its value followed by "ms", and then one
  tick at 30 labelled "Real-Time -- 30ms". (\<open>min\<close> is not used.)
\<close>

theorem Ticks_multiples_of_50:
  assumes "0 \<le> ymax" and "ymax < 2 ^ 53"
  shows "Ticks ymin ymax =
    Some (map (\<lambda>k. \<lparr>Value = 50 * real k, Label = Itoa (50 * int k) @ ''ms''\<rparr>)
            [0..<Suc (nat \<lfloor>ymax / 50\<rfloor>)]
          @ [\<lparr>Value = 30, Label = ''Real-Time -- 30ms''\<rparr>])"
proof -
  have "Ticks_loop 0 ymax [] = Some (map tick_at [0..<Suc (nat \<lfloor>ymax / 50\<rfloor>)])"
    using Ticks_loop_run [OF assms, of 0 "[]"] by simp
  moreover have "Itoa 30 = ''30''" by (simp add: Itoa_def digits.simps digit_def)
  moreover have "float64_of_int 30 = 30" by (simp add: float64_of_int_def)
  moreover have "tick_at = (\<lambda>k. \<lparr>Value = 50 * real k, Label = Itoa (50 * int k) @ ''ms''\<rparr>)"
    by (rule ext) (simp add: tick_at_def)
  ultimately show ?thesis by (simp add: Ticks_def)
qed

theorem Ticks_multiples_of_50_witness:
  "Ticks 0 120 =
     Some [\<lparr>Value = 0, Label = ''0ms''\<rparr>, \<lparr>Value = 50, Label = ''50ms''\<rparr>,
           \<lparr>Value = 100, Label = ''100ms''\<rparr>, \<lparr>Value = 30, Label = ''Real-Time -- 30ms''\<rparr>]"
  using Ticks_multiples_of_50 [of 120 0]
  by (simp add: upt_rec Itoa_def digits.simps digit_def)

section \<open>Properties of the percentile graph transform\<close>

lemma Split_nonempty: "Split s sep \<noteq> []"
  by (cases s) simp_all

lemma Split_terminated: "Split (s @ [sep]) sep = Split s sep @ [[]]"
proof (induction s)
  case Nil
  show ?case by simp
next
  case (Cons c cs)
  then show ?case using Split_nonempty [of cs sep] by (cases "Split cs sep") auto
qed

lemma rows_terminated:
  "drop 1 (Split (s @ [sep]) sep) = drop 1 (Split s sep) @ [[]]"
  using Split_nonempty [of s sep] by (cases "Split s sep") (simp_all add: Split_terminated)

lemma Split_line:
  "sep \<notin> set line \<Longrightarrow> Split (line @ sep # rest) sep = line # Split rest sep"
  by (induction line) auto

lemma Split_lines:
  "\<forall>line\<in>set lines. sep \<notin> set line
     \<Longrightarrow> Split (concat (map (\<lambda>line. line @ [sep]) lines)) sep = lines @ [[]]"
  by (induction lines) (simp_all add: Split_line)

lemma reporter_output_terminated:
  "reporter_output header rows \<noteq> []"
  "last (reporter_output header rows) = newline"
proof -
  show "reporter_output header rows \<noteq> []" by (simp add: reporter_output_def)
  show "last (reporter_output header rows) = newline"
  proof (induction rows rule: rev_induct)
    case Nil
    show ?case by (simp add: reporter_output_def)
  next
    case (snoc row rows)
    have "reporter_output header (rows @ [row])
        = (reporter_output header rows @ row) @ [newline]"
      by (simp add: reporter_output_def)
    then show ?case by (simp only: last_snoc)
  qed
qed

lemma DecodeRuneInString_ascii:
  "of_char c < (0x80::nat) \<Longrightarrow> DecodeRuneInString (c # cs) = (of_char c, 1)"
  by (simp add: DecodeRuneInString_def)

lemma FieldsFunc_ascii:
  assumes "of_char c < (0x80::nat)"
  shows "FieldsFunc f field (c # cs) =
     (if f (of_char c)
      then (if field = [] then FieldsFunc f [] cs else field # FieldsFunc f [] cs)
      else FieldsFunc f (field @ [c]) cs)"
  by (simp add: FieldsFunc.simps(2) DecodeRuneInString_ascii [OF assms])

lemma Fields_empty: "Fields [] = []"
  by (simp add: Fields_def)

text \<open>A no-break space, two bytes in UTF-8, separates fields like a space does.\<close>

lemma Fields_no_break_space:
  "Fields [CHR ''1'', CHR 0xC2, CHR 0xA0, CHR ''2''] = [''1'', ''2'']"
  by code_simp

lemma row_step_malformed:
  "length (Fields row) \<noteq> 4 \<Longrightarrow> row_step pf points j row = Inr points"
  by (simp add: row_step_def)

lemma row_step_length:
  "row_step pf points j row = Inr points' \<Longrightarrow> length points' = length points"
  by (auto simp: row_step_def Let_def split: if_splits option.splits)

lemma row_step_in_range:
  "j < length points \<Longrightarrow> row_step pf points j row \<noteq> Inl Panic"
  by (auto simp: row_step_def Let_def split: option.splits)

lemma rows_loop_no_panic:
  "length points = j + length rows \<Longrightarrow> rows_loop pf points j (rows @ [[]]) \<noteq> Inl Panic"
proof (induction rows arbitrary: points j)
  case Nil
  show ?case by (simp add: row_step_malformed Fields_empty)
next
  case (Cons row rows)
  show ?case
  proof (cases "row_step pf points j row")
    case (Inl err)
    moreover have "row_step pf points j row \<noteq> Inl Panic"
      using Cons.prems by (intro row_step_in_range) simp
    ultimately show ?thesis by auto
  next
    case (Inr points')
    then have "length points' = Suc j + length rows"
      using Cons.prems row_step_length by fastforce
    then have "rows_loop pf points' (Suc j) (rows @ [[]]) \<noteq> Inl Panic"
      by (rule Cons.IH)
    with Inr show ?thesis by simp
  qed
qed

lemma graph_points_terminated:
  assumes "bufferString \<noteq> []" and "last bufferString = newline"
  shows "writes_in_bounds bufferString \<and>
         Fields (last (drop 1 (Split bufferString newline))) = [] \<and>
         graph_points pf bufferString \<noteq> Inl Panic"
proof -
  obtain s where s: "bufferString = s @ [newline]"
    using assms by (metis append_butlast_last_id)
  define rows where "rows = drop 1 (Split s newline)"
  have rows: "drop 1 (Split bufferString newline) = rows @ [[]]"
    by (simp only: s rows_terminated rows_def)
  have "length (Fields ((rows @ [[]]) ! j)) = 4 \<longrightarrow> int j < int (length (rows @ [[]])) - 1"
    if "j < length (rows @ [[]])" for j
  proof (cases "j < length rows")
    case True
    then show ?thesis by simp
  next
    case False
    with that have "j = length rows" by simp
    then show ?thesis by (simp add: Fields_empty)
  qed
  then have "writes_in_bounds bufferString"
    unfolding writes_in_bounds_def rows Let_def list_all_iff by (simp add: Fields_empty)
  moreover have "Fields (last (drop 1 (Split bufferString newline))) = []"
    unfolding rows by (simp add: Fields_empty)
  moreover have "graph_points pf bufferString \<noteq> Inl Panic"
    unfolding graph_points_def rows Let_def
    using rows_loop_no_panic [of "replicate (length rows) \<lparr>X = 0, Y = 0\<rparr>" 0 rows pf]
    by simp
  ultimately show ?thesis by blast
qed

lemma row_point_malformed:
  "length (Fields row) \<noteq> 4 \<Longrightarrow> row_point pf row = Some \<lparr>X = 0, Y = 0\<rparr>"
  by (simp add: row_point_def)

lemma row_step_row_point:
  "row_step pf (pre @ \<lparr>X = 0, Y = 0\<rparr> # post) (length pre) row =
     (case row_point pf row of
        None \<Rightarrow> Inl LogFatal
      | Some point \<Rightarrow> Inr (pre @ point # post))"
  by (simp add: row_step_def row_point_def Let_def split: option.splits)

lemma rows_loop_row_points:
  "rows_loop pf (pre @ replicate (length rows) \<lparr>X = 0, Y = 0\<rparr>) (length pre) (rows @ [[]]) =
     (if \<forall>row\<in>set rows. row_point pf row \<noteq> None
      then Inr (pre @ map (the \<circ> row_point pf) rows)
      else Inl LogFatal)"
proof (induction rows arbitrary: pre)
  case Nil
  show ?case by (simp add: row_step_malformed Fields_empty)
next
  case (Cons row rows)
  show ?case
  proof (cases "row_point pf row")
    case None
    then show ?thesis
      using row_step_row_point [of pf pre "replicate (length rows) \<lparr>X = 0, Y = 0\<rparr>" row]
      by simp
  next
    case (Some point)
    have "rows_loop pf (pre @ replicate (length (row # rows)) \<lparr>X = 0, Y = 0\<rparr>) (length pre)
          ((row # rows) @ [[]])
        = rows_loop pf ((pre @ [point]) @ replicate (length rows) \<lparr>X = 0, Y = 0\<rparr>)
            (length (pre @ [point])) (rows @ [[]])"
      by (simp add: row_step_row_point Some)
    also have "\<dots> = (if \<forall>row\<in>set rows. row_point pf row \<noteq> None
        then Inr ((pre @ [point]) @ map (the \<circ> row_point pf) rows)
        else Inl LogFatal)"
      by (rule Cons.IH)
    finally show ?thesis using Some by simp
  qed
qed

lemma graph_points_reporter_output:
  assumes "\<forall>line\<in>set (header # rows). newline \<notin> set line"
  shows "graph_points pf (reporter_output header rows) =
     (if \<forall>row\<in>set rows. row_point pf row \<noteq> None
      then Inr (map (the \<circ> row_point pf) rows)
      else Inl LogFatal)"
proof -
  have "Split (reporter_output header rows) newline = (header # rows) @ [[]]"
    unfolding reporter_output_def using assms by (rule Split_lines)
  then have rows: "drop 1 (Split (reporter_output header rows) newline) = rows @ [[]]"
    by simp
  show ?thesis
    unfolding graph_points_def rows Let_def
    using rows_loop_row_points [of pf "[]" rows] by simp
qed

lemma points_loop_map:
  assumes "\<forall>e\<in>set es. graph_points pf (out e) = (if ok e then Inr (pts e) else Inl LogFatal)"
  shows "points_loop pf (map out es) =
     (if \<forall>e\<in>set es. ok e then Inr (map pts es) else Inl LogFatal)"
  using assms by (induction es) auto

text \<open>
  Claim C6, as stated, fails in its second half. The row loop skips a row whose field
  count is not 4, but the point allocated for that row stays at its zero value and goes
  into the plot with the others. In the example the reporter writes a row of three
  fields before a row of four: the rows give the points \<open>(0, 0)\<close> and \<open>(10, 2.5)\<close>, and
  a plotting stage that takes no point with \<open>X \<le> 0\<close> ends the render with a panic.
\<close>

theorem malformed_row_render_counterexample:
  "HDRReport (example_graph_world log_scale_ok) 1
     = reporter_output ''h'' [''1 2 3'', ''2.5 x y 10'']
   \<and> length (Fields ''1 2 3'') = 3
   \<and> graph_points example_ParseFloat (reporter_output ''h'' [''1 2 3'', ''2.5 x y 10''])
       = Inr [\<lparr>X = 0, Y = 0\<rparr>, \<lparr>X = 10, Y = 2.5\<rparr>]
   \<and> createGraph (example_graph_world log_scale_ok) [example_endpoint ''http://a'' 1]
       = Inl Panic"
proof -
  have f3: "Fields ''1 2 3'' = [''1'', ''2'', ''3'']"
    and f4: "Fields ''2.5 x y 10'' = [''2.5'', ''x'', ''y'', ''10'']"
    by (simp_all add: Fields_def FieldsFunc_ascii IsSpace_def)
  have points: "graph_points example_ParseFloat (reporter_output ''h'' [''1 2 3'', ''2.5 x y 10''])
       = Inr [\<lparr>X = 0, Y = 0\<rparr>, \<lparr>X = 10, Y = 2.5\<rparr>]"
    by (simp add: graph_points_def reporter_output_def newline_def row_step_def f3 f4
        Fields_empty example_ParseFloat_def)
  show ?thesis
    by (simp add: f3 points createGraph_def example_graph_world_def example_world_def
        example_endpoint_def log_scale_ok_def)
qed

text \<open>
  Claim C6, amended. In the percentile graph transform every row whose field count is
  not 4 is silently skipped by the row loop: the step for it raises nothing, leaves the
  points as they are and the loop goes on with the next row. For every list of endpoints
  whose reporter outputs are a header and rows, each on a line of its own, the points of
  an endpoint are those of its rows in order, the zero point for a skipped row; reading
  the rows fails only on a row of exactly four fields with a field that is no number;
  and after the rows the transform goes on to the plot, so the render is completed
  exactly when the plotting stage takes these points.
\<close>

theorem malformed_rows_skipped_by_row_loop:
  assumes "\<forall>endpoint\<in>set endpoints.
      HDRReport w (Metrics endpoint) = reporter_output (header_of endpoint) (rows_of endpoint)
      \<and> (\<forall>line\<in>set (header_of endpoint # rows_of endpoint). newline \<notin> set line)"
  shows "(\<forall>row. length (Fields row) \<noteq> 4 \<longrightarrow>
            row_point (ParseFloat w) row = Some \<lparr>X = 0, Y = 0\<rparr> \<and>
            (\<forall>points j rest.
               row_step (ParseFloat w) points j row = Inr points \<and>
               rows_loop (ParseFloat w) points j (row # rest)
                 = rows_loop (ParseFloat w) points (Suc j) rest))
    \<and> (\<forall>endpoint\<in>set endpoints.
          graph_points (ParseFloat w) (HDRReport w (Metrics endpoint))
            = (if \<forall>row\<in>set (rows_of endpoint). row_point (ParseFloat w) row \<noteq> None
               then Inr (map (the \<circ> row_point (ParseFloat w)) (rows_of endpoint))
               else Inl LogFatal))
    \<and> createGraph w endpoints
        = (if \<forall>endpoint\<in>set endpoints. \<forall>row\<in>set (rows_of endpoint).
                row_point (ParseFloat w) row \<noteq> None
           then (if plot_ok w (map (\<lambda>endpoint. map (the \<circ> row_point (ParseFloat w))
                                      (rows_of endpoint)) endpoints)
                 then Inr (map (\<lambda>endpoint. map (the \<circ> row_point (ParseFloat w))
                                  (rows_of endpoint)) endpoints)
                 else Inl Panic)
           else Inl LogFatal)"
proof -
  have skip: "\<forall>row. length (Fields row) \<noteq> 4 \<longrightarrow>
            row_point (ParseFloat w) row = Some \<lparr>X = 0, Y = 0\<rparr> \<and>
            (\<forall>points j rest.
               row_step (ParseFloat w) points j row = Inr points \<and>
               rows_loop (ParseFloat w) points j (row # rest)
                 = rows_loop (ParseFloat w) points (Suc j) rest)"
    by (simp add: row_step_malformed row_point_malformed)
  have each: "\<forall>endpoint\<in>set endpoints.
          graph_points (ParseFloat w) (HDRReport w (Metrics endpoint))
            = (if \<forall>row\<in>set (rows_of endpoint). row_point (ParseFloat w) row \<noteq> None
               then Inr (map (the \<circ> row_point (ParseFloat w)) (rows_of endpoint))
               else Inl LogFatal)"
  proof
    fix endpoint assume "endpoint \<in> set endpoints"
    with assms have out: "HDRReport w (Metrics endpoint)
          = reporter_output (header_of endpoint) (rows_of endpoint)"
      and lines: "\<forall>line\<in>set (header_of endpoint # rows_of endpoint). newline \<notin> set line"
      by blast+
    show "graph_points (ParseFloat w) (HDRReport w (Metrics endpoint))
            = (if \<forall>row\<in>set (rows_of endpoint). row_point (ParseFloat w) row \<noteq> None
               then Inr (map (the \<circ> row_point (ParseFloat w)) (rows_of endpoint))
               else Inl LogFatal)"
      unfolding out by (rule graph_points_reporter_output [OF lines])
  qed
  have loop: "points_loop (ParseFloat w) (map (\<lambda>endpoint. HDRReport w (Metrics endpoint)) endpoints)
      = (if \<forall>endpoint\<in>set endpoints. \<forall>row\<in>set (rows_of endpoint).
                row_point (ParseFloat w) row \<noteq> None
         then Inr (map (\<lambda>endpoint. map (the \<circ> row_point (ParseFloat w)) (rows_of endpoint))
                     endpoints)
         else Inl LogFatal)"
    using each by (rule points_loop_map)
  have "createGraph w endpoints
        = (if \<forall>endpoint\<in>set endpoints. \<forall>row\<in>set (rows_of endpoint).
                row_point (ParseFloat w) row \<noteq> None
           then (if plot_ok w (map (\<lambda>endpoint. map (the \<circ> row_point (ParseFloat w))
                                      (rows_of endpoint)) endpoints)
                 then Inr (map (\<lambda>endpoint. map (the \<circ> row_point (ParseFloat w))
                                  (rows_of endpoint)) endpoints)
                 else Inl Panic)
           else Inl LogFatal)"
    unfolding createGraph_def loop by simp
  with skip each show ?thesis by blast
qed

theorem malformed_rows_skipped_by_row_loop_witness:
  "length (Fields ''1 2 3'') \<noteq> 4 \<and>
   createGraph (example_graph_world (\<lambda>points. True)) [example_endpoint ''http://a'' 1]
     = Inr [[\<lparr>X = 0, Y = 0\<rparr>, \<lparr>X = 10, Y = 2.5\<rparr>]]"
proof -
  let ?w = "example_graph_world (\<lambda>points. True)"
  let ?eps = "[example_endpoint ''http://a'' 1]"
  have f3: "Fields ''1 2 3'' = [''1'', ''2'', ''3'']"
    and f4: "Fields ''2.5 x y 10'' = [''2.5'', ''x'', ''y'', ''10'']"
    by (simp_all add: Fields_def FieldsFunc_ascii IsSpace_def)
  have pf: "ParseFloat ?w = example_ParseFloat" and ok: "plot_ok ?w = (\<lambda>points. True)"
    by (simp_all add: example_graph_world_def example_world_def)
  have hyp: "\<forall>endpoint\<in>set ?eps.
      HDRReport ?w (Metrics endpoint)
        = reporter_output ((\<lambda>endpoint. ''h'') endpoint)
            ((\<lambda>endpoint. [''1 2 3'', ''2.5 x y 10'']) endpoint)
      \<and> (\<forall>line\<in>set ((\<lambda>endpoint. ''h'') endpoint
                       # (\<lambda>endpoint. [''1 2 3'', ''2.5 x y 10'']) endpoint).
            newline \<notin> set line)"
    by (simp add: example_graph_world_def example_world_def newline_def)
  have p3: "row_point example_ParseFloat ''1 2 3'' = Some \<lparr>X = 0, Y = 0\<rparr>"
    by (simp add: row_point_def f3)
  have p4: "row_point example_ParseFloat ''2.5 x y 10'' = Some \<lparr>X = 10, Y = 2.5\<rparr>"
    by (simp add: row_point_def f4 example_ParseFloat_def)
  show ?thesis
    using malformed_rows_skipped_by_row_loop [OF hyp]
    by (simp add: f3 pf ok p3 p4)
qed

text \<open>
  Claim C10. For every reporter output, every write \<^verbatim>\<open>points[i][j]\<close> of the row loop is
  within bounds: the output ends in a line feed, so the last row after the header is
  empty and never has four fields, every row of exactly four fields has an index
  strictly below the allocated length (the number of rows after the header minus one),
  and the loop never panics, whatever the rows hold and whatever \<^verbatim>\<open>ParseFloat\<close> answers.
\<close>

theorem writes_in_bounds_reporter_output:
  "writes_in_bounds (reporter_output header rows) \<and>
   length (Fields (last (drop 1 (Split (reporter_output header rows) newline)))) \<noteq> 4 \<and>
   graph_points parse (reporter_output header rows) \<noteq> Inl Panic"
  using graph_points_terminated [OF reporter_output_terminated, of header rows parse]
  by simp

theorem writes_in_bounds_reporter_output_witness:
  "writes_in_bounds (reporter_output ''h'' [''1 2 3 4'']) \<and>
   graph_points example_ParseFloat (reporter_output ''h'' [''1 2 3 4''])
     = Inr [\<lparr>X = 4, Y = 1\<rparr>]"
proof -
  have f4: "Fields ''1 2 3 4'' = [''1'', ''2'', ''3'', ''4'']"
    by (simp add: Fields_def FieldsFunc_ascii IsSpace_def)
  have "graph_points example_ParseFloat (reporter_output ''h'' [''1 2 3 4''])
     = Inr [\<lparr>X = 4, Y = 1\<rparr>]"
    by (simp add: graph_points_def reporter_output_def newline_def row_step_def f4
        Fields_empty example_ParseFloat_def)
  with writes_in_bounds_reporter_output [of "''h''" "[''1 2 3 4'']" example_ParseFloat]
  show ?thesis by simp
qed

section \<open>Properties of the forwarding emitter\<close>

lemma forward_loop_prefix:
  assumes "\<forall>j<length endpoints. Hostname w (i + j) \<noteq> None"
    and "NewRequest_ok w (Url settings)"
    and "k \<le> length endpoints"
    and "\<forall>j<k. \<exists>resp. client_Do w (i + j) (request_for w settings (i + j) (endpoints ! j)) = Some resp
                    \<and> \<not> body_read_error resp"
    and "k < length endpoints \<longrightarrow>
           client_Do w (i + k) (request_for w settings (i + k) (endpoints ! k)) = None"
  shows "posts (fst (forward_loop w settings i endpoints))
           = map (\<lambda>j. request_for w settings (i + j) (endpoints ! j))
               [0..<min (Suc k) (length endpoints)]
         \<and> snd (forward_loop w settings i endpoints)
           = (if k < length endpoints then Some Panic else None)"
  using assms
proof (induction endpoints arbitrary: i k)
  case Nil
  then show ?case by simp
next
  case (Cons endpoint rest)
  from Cons.prems(1) obtain name where name: "Hostname w i = Some name"
    by fastforce
  have req: "splunk_request settings (Now w i) name endpoint = request_for w settings i endpoint"
    by (simp add: request_for_def name)
  show ?case
  proof (cases k)
    case 0
    with Cons.prems(5) have "client_Do w i (request_for w settings i endpoint) = None"
      by simp
    then show ?thesis
      using 0 name Cons.prems(2) by (simp add: req)
  next
    case (Suc k')
    with Cons.prems(4) obtain resp
      where resp: "client_Do w i (request_for w settings i endpoint) = Some resp"
        "\<not> body_read_error resp"
      by fastforce
    have h1: "\<forall>j<length rest. Hostname w (Suc i + j) \<noteq> None"
      using Cons.prems(1) by fastforce
    have h3: "k' \<le> length rest" using Cons.prems(3) Suc by simp
    have h4: "\<forall>j<k'. \<exists>resp. client_Do w (Suc i + j)
                  (request_for w settings (Suc i + j) (rest ! j)) = Some resp
                \<and> \<not> body_read_error resp"
    proof (intro allI impI)
      fix j assume "j < k'"
      then have "Suc j < k" using Suc by simp
      with Cons.prems(4) show "\<exists>resp. client_Do w (Suc i + j)
                  (request_for w settings (Suc i + j) (rest ! j)) = Some resp
                \<and> \<not> body_read_error resp"
        by fastforce
    qed
    have h5: "k' < length rest \<longrightarrow>
        client_Do w (Suc i + k') (request_for w settings (Suc i + k') (rest ! k')) = None"
      using Cons.prems(5) Suc by simp
    note IH = Cons.IH [OF h1 Cons.prems(2) h3 h4 h5]
    have shift: "map (\<lambda>j. request_for w settings (i + j) ((endpoint # rest) ! j))
                   [0..<Suc (min (Suc k') (length rest))]
        = request_for w settings i endpoint
          # map (\<lambda>j. request_for w settings (Suc i + j) (rest ! j))
              [0..<min (Suc k') (length rest)]"
      by (simp add: map_upt_Suc del: upt_Suc)
    have m: "min (Suc k) (length (endpoint # rest)) = Suc (min (Suc k') (length rest))"
      using Suc by simp
    obtain trace result where rest: "forward_loop w settings (Suc i) rest = (trace, result)"
      by (cases "forward_loop w settings (Suc i) rest")
    have unfold: "forward_loop w settings i (endpoint # rest)
        = (Post (request_for w settings i endpoint) # LogPrint (resp_body resp) # trace, result)"
      using name Cons.prems(2) resp rest by (simp add: req)
    have "posts trace = map (\<lambda>j. request_for w settings (Suc i + j) (rest ! j))
              [0..<min (Suc k') (length rest)]"
      and "result = (if k' < length rest then Some Panic else None)"
      using IH unfolding rest by simp_all
    then show ?thesis
      unfolding m shift unfold using Suc by simp
  qed
qed

text \<open>
  Claim C2, as stated, fails in its second half: the response status is never read. In
  the example the sink answers the second of three requests with status 500; all three
  events are handed to the HTTP client, the third included, and the function returns.
\<close>

theorem non_2xx_aborts_forwarding_counterexample:
  "posted_urls (fst (sendJsonToSplunk (example_world replies_500) example_three example_settings))
     = [''http://a'', ''http://b'', ''http://c'']
   \<and> snd (sendJsonToSplunk (example_world replies_500) example_three example_settings) = None"
  by (simp add: sendJsonToSplunk_def example_world_def replies_500_def example_three_def
      example_settings_def example_endpoint_def splunk_request_def posted_urls_def)

text \<open>
  Claim C2, amended. A transport failure (an error of \<^verbatim>\<open>client.Do\<close>) while forwarding one
  endpoint's event is fatal and aborts all remaining forwarding: when the requests for
  the first \<open>k\<close> endpoints are answered and the request for endpoint \<open>k\<close> fails, exactly
  the requests for endpoints \<open>0, \<dots>, k\<close> are made, in order, and the function panics. A
  response is an answer whatever its status: when every request is answered (\<open>k\<close> is the
  number of endpoints), with 2xx or not, every endpoint's event is sent and the function
  returns. (Host name and URL are assumed usable and the response bodies readable.)
\<close>

theorem forwarding_aborts_on_transport_failure_only:
  assumes "\<forall>i<length endpoints. Hostname w i \<noteq> None"
    and "NewRequest_ok w (Url settings)"
    and "k \<le> length endpoints"
    and "\<forall>i<k. \<exists>resp. client_Do w i (request_for w settings i (endpoints ! i)) = Some resp
                    \<and> \<not> body_read_error resp"
    and "k < length endpoints \<longrightarrow>
           client_Do w k (request_for w settings k (endpoints ! k)) = None"
  shows "posts (fst (sendJsonToSplunk w endpoints settings))
           = map (\<lambda>i. request_for w settings i (endpoints ! i))
               [0..<min (Suc k) (length endpoints)]
         \<and> snd (sendJsonToSplunk w endpoints settings)
           = (if k < length endpoints then Some Panic else None)"
  using forward_loop_prefix [of endpoints w 0 settings k] assms
  by (simp add: sendJsonToSplunk_def)

theorem forwarding_aborts_on_transport_failure_only_witness:
  "posted_urls (fst (sendJsonToSplunk (example_world replies_broken) example_three example_settings))
     = [''http://a'', ''http://b'']
   \<and> snd (sendJsonToSplunk (example_world replies_broken) example_three example_settings)
     = Some Panic"
proof -
  let ?w = "example_world replies_broken"
  have h1: "\<forall>i<length example_three. Hostname ?w i \<noteq> None"
    by (simp add: example_world_def)
  have h2: "NewRequest_ok ?w (Url example_settings)"
    by (simp add: example_world_def)
  have h3: "1 \<le> length example_three"
    by (simp add: example_three_def)
  have h4: "\<forall>i<1. \<exists>resp. client_Do ?w i (request_for ?w example_settings i (example_three ! i))
              = Some resp \<and> \<not> body_read_error resp"
    by (simp add: example_world_def replies_broken_def)
  have h5: "1 < length example_three \<longrightarrow>
      client_Do ?w 1 (request_for ?w example_settings 1 (example_three ! 1)) = None"
    by (simp add: example_world_def replies_broken_def)
  have two: "[0..<min (Suc 1) (length example_three)] = [0, 1]"
    by (simp add: example_three_def upt_rec)
  show ?thesis
    using forwarding_aborts_on_transport_failure_only [OF h1 h2 h3 h4 h5]
    unfolding two posted_urls_def
    by (simp add: request_for_def splunk_request_def example_three_def example_endpoint_def)
qed

section \<open>Properties of the action\<close>

lemma parse_durations_None_iff:
  "parse_durations w endpoints = None
     \<longleftrightarrow> (\<exists>endpoint\<in>set endpoints. ParseDuration w (Duration (Query endpoint)) = None)"
  by (induction endpoints) (auto split: option.splits)

lemma load_endpoints_errors:
  "load_endpoints w c = Inl err \<Longrightarrow> err = LogFatal \<or> err = Panic"
  by (auto simp: load_endpoints_def parseEndpointsJSON_def parseEndpointsYAML_def
      parseJSONString_def split: if_splits file_result.splits sum.splits)

lemma load_splunk_settings_errors:
  "load_splunk_settings w c = Inl err \<Longrightarrow> err = LogFatal \<or> err = Panic"
  by (auto simp: load_splunk_settings_def parseSplunkSettingsJSON_def parseSplunkSettingsYAML_def
      split: if_splits file_result.splits option.splits)

lemma main_checks_fail:
  "\<not> input_selected c \<or> \<not> output_selected c \<Longrightarrow> main w c = ([], Some LogFatal)"
  by (auto simp: main_def input_selected_def output_selected_def)

lemma main_checks_pass:
  assumes "input_selected c" and "output_selected c"
  shows "main w c =
    (case load_endpoints w c of
       Inl err \<Rightarrow> ([], Some err)
     | Inr endpointList \<Rightarrow>
         (case load_splunk_settings w c of
            Inl err \<Rightarrow> ([], Some err)
          | Inr settings \<Rightarrow>
              (case parse_durations w endpointList of
                 None \<Rightarrow> ([], Some LogFatal)
               | Some durations \<Rightarrow>
                   (let bar = (if \<not> IsSet (flag_quiet c) then [ShowProgressBar durations]
                               else []) in
                    case query_loop w [] endpointList of
                      (runs, Inl err) \<Rightarrow> (bar @ runs, Some err)
                    | (runs, Inr endpointList') \<Rightarrow>
                        (case emit_reports w c endpointList' settings of
                           (reports, result) \<Rightarrow> (bar @ runs @ reports, result))))))"
  using assms unfolding main_def input_selected_def output_selected_def
  by (simp only: if_False split: if_splits) auto

lemma main_load_stops:
  assumes "load_endpoints w c = Inl err"
  shows "fst (main w c) = [] \<and> (snd (main w c) = Some LogFatal \<or> snd (main w c) = Some Panic)"
proof (cases "input_selected c \<and> output_selected c")
  case True
  then show ?thesis
    using assms load_endpoints_errors [OF assms] by (auto simp: main_checks_pass)
next
  case False
  then show ?thesis by (simp add: main_checks_fail)
qed

lemma input_parse_fails_load:
  "input_parse_fails w c \<Longrightarrow> load_endpoints w c = Inl Panic"
  by (auto simp: input_parse_fails_def load_endpoints_def parseEndpointsJSON_def
      parseEndpointsYAML_def parseJSONString_def IsSet_def String_def isl_def
      split: option.splits file_result.splits)

text \<open>
  Claim C3. The run ends fatally, with an empty trace (so before any run of the engine
  and before any request to the sink), in each of the four cases: neither a file nor
  inline data is given; both are given; no output is requested; the input is read and
  does not parse under its encoding. The first three end in \<^verbatim>\<open>log.Fatal\<close>, the fourth in
  \<^verbatim>\<open>log.Fatal\<close> or a panic.
\<close>

theorem configuration_errors_are_fatal:
  "(flag_file c = None \<and> flag_data c = None \<longrightarrow> main w c = ([], Some LogFatal)) \<and>
   (flag_file c \<noteq> None \<and> flag_data c \<noteq> None \<longrightarrow> main w c = ([], Some LogFatal)) \<and>
   (flag_output c = None \<and> \<not> Bool (flag_print c) \<and> \<not> Bool (flag_json c)
      \<and> String (flag_splunk c) = [] \<longrightarrow> main w c = ([], Some LogFatal)) \<and>
   (input_parse_fails w c \<longrightarrow>
      fst (main w c) = [] \<and> (snd (main w c) = Some LogFatal \<or> snd (main w c) = Some Panic)) \<and>
   (input_parse_fails w c \<and> input_selected c \<and> output_selected c \<longrightarrow>
      main w c = ([], Some Panic))"
proof (intro conjI impI)
  assume "flag_file c = None \<and> flag_data c = None"
  then show "main w c = ([], Some LogFatal)"
    by (intro main_checks_fail) (simp add: input_selected_def IsSet_def)
next
  assume "flag_file c \<noteq> None \<and> flag_data c \<noteq> None"
  then show "main w c = ([], Some LogFatal)"
    by (intro main_checks_fail) (simp add: input_selected_def IsSet_def)
next
  assume "flag_output c = None \<and> \<not> Bool (flag_print c) \<and> \<not> Bool (flag_json c)
      \<and> String (flag_splunk c) = []"
  then show "main w c = ([], Some LogFatal)"
    by (intro main_checks_fail) (simp add: output_selected_def IsSet_def)
next
  assume "input_parse_fails w c"
  then have "load_endpoints w c = Inl Panic" by (rule input_parse_fails_load)
  then show "fst (main w c) = []"
    and "snd (main w c) = Some LogFatal \<or> snd (main w c) = Some Panic"
    using main_load_stops by blast+
next
  assume "input_parse_fails w c \<and> input_selected c \<and> output_selected c"
  then show "main w c = ([], Some Panic)"
    by (simp add: main_checks_pass input_parse_fails_load)
qed

theorem configuration_errors_are_fatal_witness:
  "input_parse_fails (example_world replies_500) (example_flags ''broken.json'') \<and>
   main (example_world replies_500) (example_flags ''broken.json'') = ([], Some Panic) \<and>
   main (example_world replies_500) ((example_flags ''eps.json'')\<lparr>flag_file := None\<rparr>)
     = ([], Some LogFatal) \<and>
   main (example_world replies_500) ((example_flags ''eps.json'')\<lparr>flag_data := Some ''two''\<rparr>)
     = ([], Some LogFatal) \<and>
   main (example_world replies_500)
     ((example_flags ''eps.json'')\<lparr>flag_print := None, flag_json := Some False\<rparr>)
     = ([], Some LogFatal)"
proof -
  let ?w = "example_world replies_500"
  have ext: "Ext ''broken.json'' = ''.json''" by (simp add: Ext_def)
  have fails: "input_parse_fails ?w (example_flags ''broken.json'')"
    by (simp add: input_parse_fails_def example_flags_def example_world_def ext
        json_Unmarshal_def)
  have sel: "input_selected (example_flags ''broken.json'')"
    "output_selected (example_flags ''broken.json'')"
    by (simp_all add: input_selected_def output_selected_def example_flags_def IsSet_def Bool_def)
  show ?thesis
    using fails sel
      configuration_errors_are_fatal [of "example_flags ''broken.json''" ?w]
      configuration_errors_are_fatal [of "(example_flags ''eps.json'')\<lparr>flag_file := None\<rparr>" ?w]
      configuration_errors_are_fatal
        [of "(example_flags ''eps.json'')\<lparr>flag_data := Some ''two''\<rparr>" ?w]
      configuration_errors_are_fatal
        [of "(example_flags ''eps.json'')\<lparr>flag_print := None, flag_json := Some False\<rparr>" ?w]
    by (simp add: example_flags_def Bool_def String_def)
qed

text \<open>
  Claim C5. When the endpoint list has been loaded and the duration of any of its specs
  does not parse, the run ends fatally with an empty trace: no endpoint is probed, the
  ones before the malformed spec included, and nothing is sent or printed.
\<close>

theorem malformed_duration_is_fatal_before_any_run:
  assumes "load_endpoints w c = Inr endpointList"
    and "\<exists>endpoint\<in>set endpointList. ParseDuration w (Duration (Query endpoint)) = None"
  shows "fst (main w c) = [] \<and> (snd (main w c) = Some LogFatal \<or> snd (main w c) = Some Panic)"
proof (cases "input_selected c \<and> output_selected c")
  case False
  then show ?thesis by (simp add: main_checks_fail)
next
  case True
  have none: "parse_durations w endpointList = None"
    using assms(2) by (simp add: parse_durations_None_iff)
  show ?thesis
  proof (cases "load_splunk_settings w c")
    case (Inl err)
    then show ?thesis
      using True assms(1) load_splunk_settings_errors [OF Inl] by (auto simp: main_checks_pass)
  next
    case (Inr settings)
    then show ?thesis
      using True assms(1) none by (simp add: main_checks_pass)
  qed
qed

theorem malformed_duration_is_fatal_before_any_run_witness:
  "load_endpoints (example_world replies_500) (example_flags ''slow.json'')
     = Inr [example_endpoint ''http://a'' 0, (example_endpoint ''http://b'' 0)
              \<lparr>Query := (Query (example_endpoint ''http://b'' 0))\<lparr>Duration := ''10 s''\<rparr>\<rparr>]
   \<and> main (example_world replies_500) (example_flags ''slow.json'') = ([], Some LogFatal)"
proof -
  let ?w = "example_world replies_500"
  let ?eps = "[example_endpoint ''http://a'' 0, (example_endpoint ''http://b'' 0)
              \<lparr>Query := (Query (example_endpoint ''http://b'' 0))\<lparr>Duration := ''10 s''\<rparr>\<rparr>]"
  have ext: "Ext ''slow.json'' = ''.json''" by (simp add: Ext_def)
  have load: "load_endpoints ?w (example_flags ''slow.json'') = Inr ?eps"
    by (simp add: load_endpoints_def example_flags_def IsSet_def String_def ext
        parseEndpointsJSON_def json_Unmarshal_def example_world_def example_element_def
        example_endpoint_def Unmarshal_Object decode_target_def decode_query_def set_field_def
        zero_target_def default_query_def)
  have bad: "\<exists>endpoint\<in>set ?eps. ParseDuration ?w (Duration (Query endpoint)) = None"
    by (simp add: example_world_def example_endpoint_def)
  have settings: "load_splunk_settings ?w (example_flags ''slow.json'') = Inr zero_settings"
    by (simp add: load_splunk_settings_def example_flags_def IsSet_def)
  have sel: "input_selected (example_flags ''slow.json'')"
    "output_selected (example_flags ''slow.json'')"
    by (simp_all add: input_selected_def output_selected_def example_flags_def IsSet_def Bool_def)
  have none: "parse_durations ?w ?eps = None"
    using bad by (simp only: parse_durations_None_iff)
  have "snd (main ?w (example_flags ''slow.json'')) \<noteq> Some Panic"
    by (simp only: main_checks_pass [OF sel] load settings none sum.case option.case) simp
  with malformed_duration_is_fatal_before_any_run [OF load bad] load
  show ?thesis by (metis prod.collapse)
qed

lemma query_loop_runs:
  assumes "\<forall>endpoint\<in>set rest. ParseDuration w (Duration (Query endpoint)) \<noteq> None"
  shows "query_loop w finished rest =
    (map (\<lambda>j. Run (length finished + j)
            (finished
             @ take j (map (\<lambda>j. (rest ! j)\<lparr>Metrics := Attack w (length finished + j) (rest ! j)\<rparr>)
                        [0..<length rest])
             @ drop j rest))
       [0..<length rest],
     Inr (finished
          @ map (\<lambda>j. (rest ! j)\<lparr>Metrics := Attack w (length finished + j) (rest ! j)\<rparr>)
              [0..<length rest]))"
  using assms
proof (induction rest arbitrary: finished)
  case Nil
  show ?case by simp
next
  case (Cons endpoint rest)
  from Cons.prems obtain duration
    where "ParseDuration w (Duration (Query endpoint)) = Some duration"
    by auto
  then have q: "queryAPI w (length finished) endpoint = Inr (Attack w (length finished) endpoint)"
    by (simp add: queryAPI_def)
  let ?e' = "endpoint\<lparr>Metrics := Attack w (length finished) endpoint\<rparr>"
  have IH: "query_loop w (finished @ [?e']) rest =
    (map (\<lambda>j. Run (Suc (length finished) + j)
            ((finished @ [?e'])
             @ take j (map (\<lambda>j. (rest ! j)\<lparr>Metrics := Attack w (Suc (length finished) + j) (rest ! j)\<rparr>)
                        [0..<length rest])
             @ drop j rest))
       [0..<length rest],
     Inr ((finished @ [?e'])
          @ map (\<lambda>j. (rest ! j)\<lparr>Metrics := Attack w (Suc (length finished) + j) (rest ! j)\<rparr>)
              [0..<length rest]))"
    using Cons.IH [of "finished @ [?e']"] Cons.prems by simp
  show ?case
    unfolding query_loop.simps q sum.case IH prod.case
    by (simp add: map_upt_Suc del: upt_Suc)
qed

lemma forward_loop_observed:
  "ev \<in> set (fst (forward_loop w settings i endpoints))
     \<Longrightarrow> set (observed ev) \<subseteq> set endpoints"
proof (induction endpoints arbitrary: i)
  case Nil
  then show ?case by simp
next
  case (Cons endpoint rest)
  show ?case
    using Cons.IH [of "Suc i"] Cons.prems
    by (auto simp: splunk_request_def Let_def split: option.splits if_splits prod.splits)
qed

lemma emit_reports_events:
  "set (fst (emit_reports w c endpoints settings))
     \<subseteq> {PrintText endpoints, PrintJson endpoints}
       \<union> set (fst (createPDF w endpoints (String (flag_output c))))
       \<union> set (fst (sendJsonToSplunk w endpoints settings))"
  by (auto simp: emit_reports_def Let_def split: if_splits prod.splits option.splits)

lemma createPDF_events:
  "set (fst (createPDF w endpoints out)) \<subseteq> (\<Union>points. {WritePDF out endpoints points})"
  by (auto simp: createPDF_def split: if_splits sum.splits)

lemma emit_reports_observed:
  assumes "ev \<in> set (fst (emit_reports w c endpoints settings))"
  shows "set (observed ev) \<subseteq> set endpoints"
proof -
  from assms emit_reports_events [of w c endpoints settings]
  consider "ev = PrintText endpoints" | "ev = PrintJson endpoints"
    | "ev \<in> set (fst (createPDF w endpoints (String (flag_output c))))"
    | "ev \<in> set (fst (sendJsonToSplunk w endpoints settings))"
    by blast
  then show ?thesis
  proof cases
    case 3
    with createPDF_events [of w endpoints "String (flag_output c)"]
    obtain points where "ev = WritePDF (String (flag_output c)) endpoints points" by blast
    then show ?thesis by simp
  next
    case 4
    then show ?thesis using forward_loop_observed by (simp add: sendJsonToSplunk_def)
  qed simp_all
qed

text \<open>
  Claim C4. When the flags pass the checks, the input and the Splunk settings load and
  every duration parses, the action runs the engine exactly once per endpoint, in input
  order and one after the other: the trace of the loop is \<open>Run 0, \<dots>, Run (n - 1)\<close>, and
  when run \<open>i\<close> starts the endpoints before \<open>i\<close> already carry the metrics of their runs
  while the others are as loaded. The loop returns the enriched list, which has the
  length and order of the input (same target and query at every index, the metrics of
  run \<open>i\<close> at index \<open>i\<close>). All reports come after the last run, and every endpoint record
  that a report shows is an element of the enriched list.
\<close>

theorem endpoints_probed_in_input_order:
  assumes "input_selected c" and "output_selected c"
    and "load_endpoints w c = Inr endpointList"
    and "load_splunk_settings w c = Inr settings"
    and "\<forall>endpoint\<in>set endpointList. ParseDuration w (Duration (Query endpoint)) \<noteq> None"
  shows "query_loop w [] endpointList
           = (map (\<lambda>i. Run i (snapshot w endpointList i)) [0..<length endpointList],
              Inr (enriched w endpointList))
    \<and> (\<exists>bar. (bar = [] \<or> (\<exists>durations. bar = [ShowProgressBar durations])) \<and>
         main w c
           = (bar @ map (\<lambda>i. Run i (snapshot w endpointList i)) [0..<length endpointList]
                @ fst (emit_reports w c (enriched w endpointList) settings),
              snd (emit_reports w c (enriched w endpointList) settings)))
    \<and> length (enriched w endpointList) = length endpointList
    \<and> (\<forall>i<length endpointList.
          Target (enriched w endpointList ! i) = Target (endpointList ! i) \<and>
          Query (enriched w endpointList ! i) = Query (endpointList ! i) \<and>
          Metrics (enriched w endpointList ! i) = Attack w i (endpointList ! i) \<and>
          (\<forall>j<length endpointList.
             snapshot w endpointList i ! j
               = (if j < i then enriched w endpointList ! j else endpointList ! j)))
    \<and> (\<forall>ev\<in>set (fst (emit_reports w c (enriched w endpointList) settings)).
          set (observed ev) \<subseteq> set (enriched w endpointList))"
proof -
  have loop: "query_loop w [] endpointList
      = (map (\<lambda>i. Run i (snapshot w endpointList i)) [0..<length endpointList],
         Inr (enriched w endpointList))"
    using query_loop_runs [OF assms(5), of "[]"] by (simp add: snapshot_def enriched_def)
  obtain durations where durations: "parse_durations w endpointList = Some durations"
    using assms(5) parse_durations_None_iff [of w endpointList] by fastforce
  have len: "length (enriched w endpointList) = length endpointList"
    by (simp add: enriched_def)
  have main_eq: "main w c
      = ((if \<not> IsSet (flag_quiet c) then [ShowProgressBar durations] else [])
           @ map (\<lambda>i. Run i (snapshot w endpointList i)) [0..<length endpointList]
           @ fst (emit_reports w c (enriched w endpointList) settings),
         snd (emit_reports w c (enriched w endpointList) settings))"
    by (simp only: main_checks_pass [OF assms(1,2)] assms(3,4) durations loop
        sum.case option.case prod.case Let_def split: prod.splits) simp
  have snap: "snapshot w endpointList i ! j
      = (if j < i then enriched w endpointList ! j else endpointList ! j)"
    if "i < length endpointList" "j < length endpointList" for i j
    using that len by (simp add: snapshot_def nth_append min_def)
  have "\<exists>bar. (bar = [] \<or> (\<exists>durations. bar = [ShowProgressBar durations])) \<and>
         main w c
           = (bar @ map (\<lambda>i. Run i (snapshot w endpointList i)) [0..<length endpointList]
                @ fst (emit_reports w c (enriched w endpointList) settings),
              snd (emit_reports w c (enriched w endpointList) settings))"
    unfolding main_eq by (cases "IsSet (flag_quiet c)") auto
  moreover have "\<forall>i<length endpointList.
          Target (enriched w endpointList ! i) = Target (endpointList ! i) \<and>
          Query (enriched w endpointList ! i) = Query (endpointList ! i) \<and>
          Metrics (enriched w endpointList ! i) = Attack w i (endpointList ! i) \<and>
          (\<forall>j<length endpointList.
             snapshot w endpointList i ! j
               = (if j < i then enriched w endpointList ! j else endpointList ! j))"
    using snap by (simp add: enriched_def)
  moreover have "\<forall>ev\<in>set (fst (emit_reports w c (enriched w endpointList) settings)).
          set (observed ev) \<subseteq> set (enriched w endpointList)"
    using emit_reports_observed by blast
  ultimately show ?thesis using loop len by blast
qed

theorem endpoints_probed_in_input_order_witness:
  "main (example_world replies_500) (example_flags ''eps.json'')
     = ([ShowProgressBar [10000000000, 10000000000],
         Run 0 [example_endpoint ''http://a'' 0, example_endpoint ''http://b'' 0],
         Run 1 [example_endpoint ''http://a'' 1, example_endpoint ''http://b'' 0],
         PrintText [example_endpoint ''http://a'' 1, example_endpoint ''http://b'' 2],
         PrintJson [example_endpoint ''http://a'' 1, example_endpoint ''http://b'' 2]],
        None)"
proof -
  let ?w = "example_world replies_500"
  let ?c = "example_flags ''eps.json''"
  let ?eps = "[example_endpoint ''http://a'' 0, example_endpoint ''http://b'' 0]"
  have ext: "Ext ''eps.json'' = ''.json''" by (simp add: Ext_def)
  have sel: "input_selected ?c" "output_selected ?c"
    by (simp_all add: input_selected_def output_selected_def example_flags_def IsSet_def Bool_def)
  have load: "load_endpoints ?w ?c = Inr ?eps"
    by (simp add: load_endpoints_def example_flags_def IsSet_def String_def ext
        parseEndpointsJSON_def json_Unmarshal_def example_world_def example_element_def
        example_endpoint_def Unmarshal_Object decode_target_def decode_query_def set_field_def
        zero_target_def default_query_def)
  have settings: "load_splunk_settings ?w ?c = Inr zero_settings"
    by (simp add: load_splunk_settings_def example_flags_def IsSet_def)
  have dur: "\<forall>endpoint\<in>set ?eps. ParseDuration ?w (Duration (Query endpoint)) \<noteq> None"
    by (simp add: example_world_def example_endpoint_def)
  have enr: "enriched ?w ?eps = [example_endpoint ''http://a'' 1, example_endpoint ''http://b'' 2]"
    by (simp add: enriched_def upt_rec example_world_def example_endpoint_def)
  have snap: "map (\<lambda>i. Run i (snapshot ?w ?eps i)) [0..<length ?eps]
      = [Run 0 ?eps, Run 1 [example_endpoint ''http://a'' 1, example_endpoint ''http://b'' 0]]"
    by (simp add: snapshot_def enr upt_rec)
  have reports: "emit_reports ?w ?c
        [example_endpoint ''http://a'' 1, example_endpoint ''http://b'' 2] zero_settings
      = ([PrintText [example_endpoint ''http://a'' 1, example_endpoint ''http://b'' 2],
          PrintJson [example_endpoint ''http://a'' 1, example_endpoint ''http://b'' 2]], None)"
    by (simp add: emit_reports_def example_flags_def IsSet_def Bool_def)
  have bar: "fst (main ?w ?c) \<noteq> [] \<and> hd (fst (main ?w ?c))
      = ShowProgressBar [10000000000, 10000000000]"
    by (simp only: main_checks_pass [OF sel] load settings sum.case)
       (simp add: example_world_def example_endpoint_def example_flags_def IsSet_def
          queryAPI_def split: prod.splits)
  from endpoints_probed_in_input_order [OF sel load settings dur]
  obtain bar where "bar = [] \<or> (\<exists>durations. bar = [ShowProgressBar durations])"
    and "main ?w ?c = (bar @ map (\<lambda>i. Run i (snapshot ?w ?eps i)) [0..<length ?eps]
                @ fst (emit_reports ?w ?c (enriched ?w ?eps) zero_settings),
              snd (emit_reports ?w ?c (enriched ?w ?eps) zero_settings))"
    by blast
  then show ?thesis
    using bar unfolding snap enr reports by auto
qed

text \<open>
  Claim C9. When the file path has an extension other than \<^verbatim>\<open>.json\<close>, \<^verbatim>\<open>.yml\<close> and
  \<^verbatim>\<open>.yaml\<close> (and no inline data is given, an output is requested and the Splunk settings
  load), nothing is read or parsed, whatever the file system and the decoders would
  answer: the endpoint list is empty, no duration is parsed, the engine never runs, and
  the action goes on to the requested reports over the empty list. Where the PDF can be
  produced (or is not requested) the run ends normally, having sent nothing.
\<close>

theorem unknown_extension_skips_parsing:
  assumes "flag_file c = Some file" and "flag_data c = None"
    and "Ext file \<noteq> ''.json''" and "Ext file \<noteq> ''.yml''" and "Ext file \<noteq> ''.yaml''"
    and "output_selected c"
    and "load_splunk_settings w c = Inr settings"
  shows "load_endpoints w c = Inr []
    \<and> main w c
        = ((if IsSet (flag_quiet c) then [] else [ShowProgressBar []])
             @ fst (emit_reports w c [] settings),
           snd (emit_reports w c [] settings))
    \<and> ((IsSet (flag_output c) \<longrightarrow>
           assets_ok w \<and> plot_ok w [] \<and> pdf_output_ok w (String (flag_output c)))
        \<longrightarrow> emit_reports w c [] settings
              = ((if Bool (flag_print c) then [PrintText []] else [])
                   @ (if IsSet (flag_output c) then [WritePDF (String (flag_output c)) [] []]
                      else [])
                   @ (if IsSet (flag_json c) then [PrintJson []] else []),
                 None))"
proof -
  have load: "load_endpoints w c = Inr []"
    using assms(1-5) by (simp add: load_endpoints_def IsSet_def String_def)
  have sel: "input_selected c"
    using assms(1,2) by (simp add: input_selected_def IsSet_def)
  have main_eq: "main w c
        = ((if IsSet (flag_quiet c) then [] else [ShowProgressBar []])
             @ fst (emit_reports w c [] settings),
           snd (emit_reports w c [] settings))"
    by (simp add: main_checks_pass [OF sel assms(6)] load assms(7) split: prod.splits)
  have reports: "emit_reports w c [] settings
              = ((if Bool (flag_print c) then [PrintText []] else [])
                   @ (if IsSet (flag_output c) then [WritePDF (String (flag_output c)) [] []]
                      else [])
                   @ (if IsSet (flag_json c) then [PrintJson []] else []),
                 None)"
    if "IsSet (flag_output c) \<longrightarrow>
           assets_ok w \<and> plot_ok w [] \<and> pdf_output_ok w (String (flag_output c))"
    using that
    by (simp add: emit_reports_def createPDF_def createGraph_def sendJsonToSplunk_def)
  show ?thesis using load main_eq reports by blast
qed

theorem unknown_extension_skips_parsing_witness:
  "load_endpoints (example_world replies_500) (example_flags ''eps.txt'') = Inr [] \<and>
   main (example_world replies_500) (example_flags ''eps.txt'')
     = ([ShowProgressBar [], PrintText [], PrintJson []], None)"
proof -
  let ?w = "example_world replies_500"
  let ?c = "example_flags ''eps.txt''"
  have f: "flag_file ?c = Some ''eps.txt''" and d: "flag_data ?c = None"
    by (simp_all add: example_flags_def)
  have ext: "Ext ''eps.txt'' \<noteq> ''.json''" "Ext ''eps.txt'' \<noteq> ''.yml''"
    "Ext ''eps.txt'' \<noteq> ''.yaml''"
    by (simp_all add: Ext_def)
  have out: "output_selected ?c"
    by (simp add: output_selected_def example_flags_def IsSet_def Bool_def)
  have settings: "load_splunk_settings ?w ?c = Inr zero_settings"
    by (simp add: load_splunk_settings_def example_flags_def IsSet_def)
  show ?thesis
    using unknown_extension_skips_parsing [OF f d ext out settings]
    by (simp add: example_flags_def IsSet_def Bool_def)
qed

end
